theory Spec2Isabelle
  imports Main
begin

section \<open>Text and numbers of the host language\<close>

text \<open>
  Text is a \<open>string\<close>: a list of 8-bit code units (the Latin-1 range of the source's
  strings).

  A number of a \<open>for\<close>/\<open>while\<close> lesson is a double that holds an integer: the parser
  reads it from a run of decimal digits, and the loop only adds such numbers. It is
  modelled by the integer it holds. Reading a numeral and adding round to the nearest
  double, ties to the even significand, and printing gives the shortest digits that read
  back as the same double, as the host does. Nothing is rounded up to a magnitude of
  \<open>2^53\<close>. The overflow of a double to \<open>Infinity\<close> (magnitudes from \<open>2^1024\<close> on) is
  outside the model.
\<close>

definition is_space :: "char \<Rightarrow> bool" where
  \<comment> \<open>\<open>\s\<close> and the characters removed by \<open>trim()\<close>: TAB, LF, VT, FF, CR, SP, NBSP\<close>
  "is_space c = (c \<in> set [CHR 0x09, CHR 0x0A, CHR 0x0B, CHR 0x0C, CHR 0x0D, CHR 0x20, CHR 0xA0])"

definition is_digit :: "char \<Rightarrow> bool" where
  \<comment> \<open>\<open>\d\<close>\<close>
  "is_digit c = (c \<in> set ''0123456789'')"

definition is_letter :: "char \<Rightarrow> bool" where
  "is_letter c = (c \<in> set ''abcdefghijklmnopqrstuvwxyzABCDEFGHIJKLMNOPQRSTUVWXYZ'')"

definition is_word :: "char \<Rightarrow> bool" where
  \<comment> \<open>\<open>\w\<close>\<close>
  "is_word c = (is_letter c \<or> is_digit c \<or> c = CHR ''_'')"

definition is_ident_start :: "char \<Rightarrow> bool" where
  \<comment> \<open>\<open>[a-zA-Z_$]\<close>\<close>
  "is_ident_start c = (is_letter c \<or> c = CHR ''_'' \<or> c = CHR ''$'')"

definition is_ident_char :: "char \<Rightarrow> bool" where
  \<comment> \<open>\<open>[\w$]\<close>\<close>
  "is_ident_char c = (is_word c \<or> c = CHR ''$'')"

definition is_dot :: "char \<Rightarrow> bool" where
  \<comment> \<open>\<open>.\<close> matches everything but a line terminator\<close>
  "is_dot c = (c \<noteq> CHR 0x0A \<and> c \<noteq> CHR 0x0D)"

definition is_sign :: "char \<Rightarrow> bool" where
  \<comment> \<open>\<open>[+-]\<close>\<close>
  "is_sign c = (c = CHR ''+'' \<or> c = CHR ''-'')"

definition trim :: "string \<Rightarrow> string" where
  "trim s = rev (dropWhile is_space (rev (dropWhile is_space s)))"

definition strip_semicolon :: "string \<Rightarrow> string" where
  \<comment> \<open>\<open>.replace(/;$/, "")\<close>: one trailing semicolon, if the text ends with one\<close>
  "strip_semicolon s = (if s \<noteq> [] \<and> last s = CHR '';'' then butlast s else s)"

definition slice_inner :: "string \<Rightarrow> string" where
  \<comment> \<open>\<open>.slice(1, -1)\<close>\<close>
  "slice_inner s = butlast (tl s)"

definition digit_value :: "char \<Rightarrow> nat" where
  "digit_value c = of_char c - 48"

definition digits_value :: "string \<Rightarrow> int" where
  "digits_value ds = foldl (\<lambda>a c. 10 * a + int (digit_value c)) 0 ds"

function bit_length :: "int \<Rightarrow> nat" where
  "bit_length n = (if n \<le> 0 then 0 else Suc (bit_length (n div 2)))"
  by pat_completeness auto
termination
  by (relation "measure nat") auto

declare bit_length.simps [simp del]

definition double_round_abs :: "int \<Rightarrow> int" where
  \<comment> \<open>the double nearest to a non-negative integer: 53 significant bits, ties to even\<close>
  "double_round_abs m =
     (if m \<le> 2 ^ 53 then m
      else let e = bit_length m - 53; q = m div 2 ^ e; r = m mod 2 ^ e; half = 2 ^ (e - 1)
           in (if r > half \<or> (r = half \<and> odd q) then q + 1 else q) * 2 ^ e)"

definition double_round :: "int \<Rightarrow> int" where
  "double_round x = (if x < 0 then - double_round_abs (- x) else double_round_abs x)"

definition js_plus :: "int \<Rightarrow> int \<Rightarrow> int" where
  \<comment> \<open>\<open>a + b\<close> on doubles that hold integers\<close>
  "js_plus a b = double_round (a + b)"

definition js_minus :: "int \<Rightarrow> int \<Rightarrow> int" where
  \<comment> \<open>\<open>a - b\<close> on doubles that hold integers\<close>
  "js_minus a b = double_round (a - b)"

definition Number_int :: "string \<Rightarrow> int" where
  \<comment> \<open>\<open>Number(s)\<close> on a text of the shape \<open>-?\d+\<close>\<close>
  "Number_int s = (case s of
       [] \<Rightarrow> 0
     | c # ds \<Rightarrow> if c = CHR ''-'' then double_round (- digits_value ds)
                else double_round (digits_value s))"

function String_nat :: "nat \<Rightarrow> string" where
  \<comment> \<open>the decimal digits of an index or a count\<close>
  "String_nat n =
     (if n < 10 then [''0123456789'' ! n]
      else String_nat (n div 10) @ [''0123456789'' ! (n mod 10)])"
  by pat_completeness auto
termination
  by (relation "measure id") auto

declare String_nat.simps [simp del]

function String_digits :: "int \<Rightarrow> string" where
  \<comment> \<open>the decimal digits of a non-negative integer\<close>
  "String_digits n =
     (if n < 10 then [''0123456789'' ! nat n]
      else String_digits (n div 10) @ [''0123456789'' ! nat (n mod 10)])"
  by pat_completeness auto
termination
  by (relation "measure nat") auto

declare String_digits.simps [simp del]

definition decimal_candidates :: "int \<Rightarrow> nat \<Rightarrow> (int \<times> nat) list" where
  \<comment> \<open>the pairs \<open>(s, n)\<close> next to \<open>x\<close> with \<open>s\<close> of \<open>k\<close> digits such that \<open>s * 10^(n-k)\<close>
      reads back as the double \<open>x\<close>\<close>
  "decimal_candidates x k =
     (let d = length (String_digits x)
      in concat (map (\<lambda>n. concat (map (\<lambda>s.
           if k \<le> n \<and> 10 ^ (k - 1) \<le> s \<and> s < 10 ^ k \<and> double_round_abs (s * 10 ^ (n - k)) = x
           then [(s, n)] else [])
           [x div 10 ^ (n - k), x div 10 ^ (n - k) + 1])) [d, d + 1]))"

definition decimal_distance :: "int \<Rightarrow> nat \<Rightarrow> int \<times> nat \<Rightarrow> int" where
  "decimal_distance x k c = \<bar>fst c * 10 ^ (snd c - k) - x\<bar>"

definition closer :: "int \<Rightarrow> nat \<Rightarrow> int \<times> nat \<Rightarrow> int \<times> nat \<Rightarrow> int \<times> nat" where
  \<comment> \<open>of two candidates the one closest to \<open>x\<close>, the even one when both are as close\<close>
  "closer x k a b =
     (if decimal_distance x k b < decimal_distance x k a
         \<or> (decimal_distance x k b = decimal_distance x k a \<and> even (fst b) \<and> odd (fst a))
      then b else a)"

definition String_double :: "int \<Rightarrow> string" where
  \<comment> \<open>\<open>String(x)\<close> for a non-negative double that holds an integer: the fewest digits
      \<open>s\<close> that read back as \<open>x\<close>, in positional notation below \<open>10^21\<close> and in exponent
      notation from there on; up to \<open>2^53\<close> these are the digits of \<open>x\<close> itself\<close>
  "String_double x =
     (if x \<le> 2 ^ 53 then String_digits x
      else case List.find (\<lambda>k. decimal_candidates x k \<noteq> []) [1..<18] of
        None \<Rightarrow> String_digits x
      | Some k \<Rightarrow>
         (case decimal_candidates x k of
            [] \<Rightarrow> String_digits x
          | c # cs \<Rightarrow>
             (let best = foldl (closer x k) c cs; s = fst best; n = snd best
              in if n \<le> 21 then String_digits s @ replicate (n - k) (CHR ''0'')
                 else (if k = 1 then String_digits s
                       else hd (String_digits s) # CHR ''.'' # tl (String_digits s))
                      @ ''e+'' @ String_nat (n - 1))))"

definition String_int :: "int \<Rightarrow> string" where
  \<comment> \<open>\<open>String(n)\<close>, and \<open>"" + n\<close>, for a double that holds an integer\<close>
  "String_int n = (if n < 0 then CHR ''-'' # String_double (- n) else String_double n)"

text \<open>
  The bodies of the lessons and the items of the \<open>forEach\<close> array go through the host's
  \<open>Number\<close>, \<open>Number.isFinite\<close>, \<open>+\<close>, \<open>-\<close> and \<open>String\<close> on arbitrary text. These are
  not code of the program, so the functions that call them take them as a parameter.
\<close>

record 'n JsNumber =
  js_Number :: "string \<Rightarrow> 'n"
  js_isFinite :: "'n \<Rightarrow> bool"
  js_add :: "'n \<Rightarrow> 'n \<Rightarrow> 'n"
  js_sub :: "'n \<Rightarrow> 'n \<Rightarrow> 'n"
  js_String :: "'n \<Rightarrow> string"

text \<open>
  The instance used to run the lessons' defaults: integer literals with an optional sign
  (\<open>None\<close> stands for \<open>NaN\<close>; every other numeral is read as \<open>NaN\<close> too, which is only
  right for texts that are no numerals at all).
\<close>

definition int_literal :: "string \<Rightarrow> int option" where
  "int_literal s = (let t = trim s in case t of
       [] \<Rightarrow> Some 0
     | c # ds \<Rightarrow>
         if (c = CHR ''-'' \<or> c = CHR ''+'') \<and> ds \<noteq> [] \<and> list_all is_digit ds
           then Some (double_round (if c = CHR ''-'' then - digits_value ds
                                    else digits_value ds))
         else if list_all is_digit t then Some (double_round (digits_value t))
         else None)"

definition intNumbers :: "int option JsNumber" where
  "intNumbers = \<lparr>
     js_Number = int_literal,
     js_isFinite = (\<lambda>n. n \<noteq> None),
     js_add = (\<lambda>a b. case (a, b) of (Some x, Some y) \<Rightarrow> Some (js_plus x y) | _ \<Rightarrow> None),
     js_sub = (\<lambda>a b. case (a, b) of (Some x, Some y) \<Rightarrow> Some (js_minus x y) | _ \<Rightarrow> None),
     js_String = (\<lambda>n. case n of Some x \<Rightarrow> String_int x | None \<Rightarrow> ''NaN'') \<rparr>"

section \<open>Regular expressions\<close>

text \<open>
  A pattern is a backtracking matcher: from a position (the rest of the input and the
  groups captured so far) it returns every way to go on, in the order in which the host's
  engine tries them. The first result is the match the engine reports.
\<close>

type_synonym mstate = "string \<times> string list"
type_synonym matcher = "mstate \<Rightarrow> mstate list"

definition chr_if :: "(char \<Rightarrow> bool) \<Rightarrow> matcher" where
  "chr_if P st = (case fst st of [] \<Rightarrow> [] | c # cs \<Rightarrow> if P c then [(cs, snd st)] else [])"

definition lit :: "string \<Rightarrow> matcher" where
  "lit w st = (if take (length w) (fst st) = w then [(drop (length w) (fst st), snd st)] else [])"

definition eoi :: matcher where
  \<comment> \<open>\<open>$\<close> without the multiline flag\<close>
  "eoi st = (if fst st = [] then [st] else [])"

definition seq :: "matcher \<Rightarrow> matcher \<Rightarrow> matcher" where
  "seq a b st = concat (map b (a st))"

definition seqs :: "matcher list \<Rightarrow> matcher" where
  "seqs ms = foldr seq ms (\<lambda>st. [st])"

definition alt :: "matcher \<Rightarrow> matcher \<Rightarrow> matcher" where
  "alt a b st = a st @ b st"

definition opt :: "matcher \<Rightarrow> matcher" where
  \<comment> \<open>greedy \<open>?\<close>\<close>
  "opt a st = a st @ [st]"

definition star :: "(char \<Rightarrow> bool) \<Rightarrow> matcher" where
  \<comment> \<open>greedy \<open>*\<close> on a character class: longest run first\<close>
  "star P st = map (\<lambda>k. (drop k (fst st), snd st)) (rev [0..<Suc (length (takeWhile P (fst st)))])"

definition many1 :: "(char \<Rightarrow> bool) \<Rightarrow> matcher" where
  \<comment> \<open>greedy \<open>+\<close> on a character class\<close>
  "many1 P st = map (\<lambda>k. (drop k (fst st), snd st)) (rev [1..<Suc (length (takeWhile P (fst st)))])"

definition lazy_star :: "(char \<Rightarrow> bool) \<Rightarrow> matcher" where
  \<comment> \<open>\<open>*?\<close> on a character class: shortest run first\<close>
  "lazy_star P st = map (\<lambda>k. (drop k (fst st), snd st)) [0..<Suc (length (takeWhile P (fst st)))]"

definition cap :: "matcher \<Rightarrow> matcher" where
  \<comment> \<open>a capturing group; the groups of the patterns below are never nested\<close>
  "cap a st = map (\<lambda>r. (fst r, snd r @ [take (length (fst st) - length (fst r)) (fst st)])) (a st)"

definition backref :: "nat \<Rightarrow> matcher" where
  "backref i st = (if i < length (snd st) then lit (snd st ! i) st else [st])"

definition match_anchored :: "matcher \<Rightarrow> string \<Rightarrow> string list option" where
  \<comment> \<open>a pattern that starts with \<open>^\<close>: the captured groups of the first match\<close>
  "match_anchored m s = (case m (s, []) of [] \<Rightarrow> None | st # _ \<Rightarrow> Some (snd st))"

fun match_search :: "matcher \<Rightarrow> string \<Rightarrow> string list option" where
  \<comment> \<open>a pattern without \<open>^\<close>: the leftmost position where it matches\<close>
  "match_search m [] = match_anchored m []"
| "match_search m (c # cs) =
     (case match_anchored m (c # cs) of Some caps \<Rightarrow> Some caps | None \<Rightarrow> match_search m cs)"

section \<open>Data model\<close>

datatype LoopPart = Start | Condition | Step | Body

datatype LessonKey = For | While | Foreach

datatype Comparator = LE | GE

type_synonym 'a ParseResult = "string + 'a"

record CounterConfig =
  c_variable :: string
  c_start :: int
  c_comparator :: Comparator
  c_end :: int
  c_step :: int
  c_values :: "int list"
  c_nextValue :: int
  c_message :: string

record 'n ForEachConfig =
  f_values :: "'n list"
  f_message :: string

record Texts =
  t_start :: string
  t_condition :: string
  t_step :: string
  t_body :: string

record CounterParse =
  cp_config :: CounterConfig
  cp_texts :: Texts

record 'n ForEachParse =
  fp_config :: "'n ForEachConfig"
  fp_texts :: Texts

record LessonEvent =
  highlight :: "LoopPart option"
  trace :: "string option"
  console :: "string option"
  counter :: "string option"

record LessonData =
  events :: "LessonEvent list"
  traceLines :: "string list"
  consoleLines :: "string list"
  finalCounter :: string

record DerivedValues =
  dv_values :: "int list"
  dv_next :: int

fun defaultText :: "LessonKey \<Rightarrow> LoopPart \<Rightarrow> string" where
  \<open>defaultText For Start = ''let i = 1''\<close>
| \<open>defaultText For Condition = ''i <= 5''\<close>
| \<open>defaultText For Step = ''i = i + 1''\<close>
| \<open>defaultText For Body = ''console.log("Looping is learning", i);''\<close>
| \<open>defaultText While Start = ''let i = 1;''\<close>
| \<open>defaultText While Condition = ''i <= 5''\<close>
| \<open>defaultText While Step = ''i = i + 1;''\<close>
| \<open>defaultText While Body = ''console.log("Looping is learning", i);''\<close>
| \<open>defaultText Foreach Start = ''const values = [2, 4, 6];''\<close>
| \<open>defaultText Foreach Condition = ''values.forEach((value, index) => {''\<close>
| \<open>defaultText Foreach Step = ''// forEach moves to the next item automatically''\<close>
| \<open>defaultText Foreach Body = ''console.log("Value", index, value);''\<close>

text \<open>
  The editable spans of a lesson: \<open>None\<close> when the lesson has no entry in the table of
  spans, otherwise the text content of the span of each part (\<open>None\<close> for a missing span).
\<close>

type_synonym Spans = "LoopPart \<Rightarrow> string option"

definition getSpanText :: "string option \<Rightarrow> string" where
  "getSpanText span = trim (case span of None \<Rightarrow> [] | Some t \<Rightarrow> t)"

section \<open>Sequence derivation\<close>

definition check :: "Comparator \<Rightarrow> int \<Rightarrow> int \<Rightarrow> bool" where
  "check comparator end v = (case comparator of LE \<Rightarrow> v \<le> end | GE \<Rightarrow> v \<ge> end)"

function deriveLoop ::
  "Comparator \<Rightarrow> int \<Rightarrow> int \<Rightarrow> int list \<Rightarrow> int \<Rightarrow> nat \<Rightarrow> DerivedValues ParseResult" where
  "deriveLoop comparator end step vs current guard =
     (if check comparator end current then
        (let vs' = vs @ [current]; current' = js_plus current step; guard' = guard + 1
         in if guard' > 200
            then Inl ''This loop would run too many times. Adjust the numbers.''
            else deriveLoop comparator end step vs' current' guard')
      else Inr \<lparr>dv_values = vs, dv_next = current\<rparr>)"
  by pat_completeness auto
termination
  by (relation "measure (\<lambda>(c, e, s, vs, cur, g). 201 - g)") auto

declare deriveLoop.simps [simp del]

definition deriveCounterValues ::
  "int \<Rightarrow> int \<Rightarrow> Comparator \<Rightarrow> int \<Rightarrow> DerivedValues ParseResult" where
  "deriveCounterValues start end comparator step = deriveLoop comparator end step [] start 0"

section \<open>Statement templater\<close>

text \<open>
  A replacement map is the list of its entries, in the order in which the host enumerates
  them; looking a key up finds its own entry. The names every object of the host inherits
  (\<open>valueOf\<close>, \<open>constructor\<close> and the like) are not keys here.
\<close>

type_synonym Replacements = "(string \<times> string) list"

definition word_boundary :: "char option \<Rightarrow> string \<Rightarrow> bool" where
  \<comment> \<open>\<open>\b\<close> between the character before a position and the text from it on\<close>
  "word_boundary prev s =
     ((case prev of None \<Rightarrow> False | Some c \<Rightarrow> is_word c)
      \<noteq> (case s of [] \<Rightarrow> False | c # _ \<Rightarrow> is_word c))"

definition matches_here :: "string \<Rightarrow> string \<Rightarrow> string \<Rightarrow> bool" where
  \<comment> \<open>\<open>\b\<close>, the escaped token, \<open>\b\<close> at the position after \<open>pre\<close>\<close>
  "matches_here token pre s =
     (take (length token) s = token
      \<and> word_boundary (if pre = [] then None else Some (last pre)) s
      \<and> word_boundary (if pre @ token = [] then None else Some (last (pre @ token)))
            (drop (length token) s))"

fun substitution :: "string \<Rightarrow> string \<Rightarrow> string \<Rightarrow> string \<Rightarrow> string" where
  \<comment> \<open>the replacement text of \<open>String.prototype.replace\<close> for a pattern without groups:
      \<open>$$\<close>, \<open>$&\<close>, \<open>$`\<close> and \<open>$'\<close> are expanded\<close>
  "substitution matched before after (a # b # rest) =
     (if a = CHR ''$'' \<and> b = CHR ''$'' then CHR ''$'' # substitution matched before after rest
      else if a = CHR ''$'' \<and> b = CHR ''&'' then matched @ substitution matched before after rest
      else if a = CHR ''$'' \<and> b = CHR 0x60 then before @ substitution matched before after rest
      else if a = CHR ''$'' \<and> b = CHR 0x27 then after @ substitution matched before after rest
      else a # substitution matched before after (b # rest))"
| "substitution matched before after rest = rest"

function replaceScan :: "string \<Rightarrow> string \<Rightarrow> string \<Rightarrow> string \<Rightarrow> string" where
  \<comment> \<open>\<open>result.replace(pattern, replacement)\<close> with the global flag, from the position
      after \<open>pre\<close>; an empty match moves on by one character\<close>
  "replaceScan token replacement pre s =
     (if matches_here token pre s \<and> token \<noteq> [] then
        substitution token pre (drop (length token) s) replacement
          @ replaceScan token replacement (pre @ token) (drop (length token) s)
      else
        (if matches_here token pre s then substitution token pre s replacement else [])
          @ (case s of [] \<Rightarrow> [] | c # cs \<Rightarrow> c # replaceScan token replacement (pre @ [c]) cs))"
  by pat_completeness auto
termination
proof (relation "measure (\<lambda>(token, replacement, pre, s). length s)")
  show "wf (measure (\<lambda>(token, replacement, pre, s). length s))" by simp
next
  fix token replacement pre :: string and s :: string
  assume "matches_here token pre s \<and> token \<noteq> []"
  then have "take (length token) s = token" and "token \<noteq> []"
    by (simp_all add: matches_here_def)
  then have "s \<noteq> []" by auto
  with \<open>token \<noteq> []\<close>
  show "((token, replacement, pre @ token, drop (length token) s), (token, replacement, pre, s))
        \<in> measure (\<lambda>(token, replacement, pre, s). length s)"
    by simp
next
  fix token replacement pre :: string and s :: string and c cs
  assume "s = c # cs"
  then show "((token, replacement, pre @ [c], cs), (token, replacement, pre, s))
        \<in> measure (\<lambda>(token, replacement, pre, s). length s)"
    by simp
qed

declare replaceScan.simps [simp del]

definition replaceIdentifiers :: "string \<Rightarrow> Replacements \<Rightarrow> string" where
  "replaceIdentifiers value replacements =
     foldl (\<lambda>result entry. replaceScan (fst entry) (snd entry) [] result) value replacements"

record Scan =
  args :: "string list"
  current :: string
  depth :: nat
  quote :: "char option"

definition previousChar :: "string \<Rightarrow> nat \<Rightarrow> char option" where
  \<comment> \<open>\<open>value[i - 1]\<close>, undefined before the first character\<close>
  "previousChar value i = (if i = 0 then None else Some (value ! (i - 1)))"

definition splitStep :: "string \<Rightarrow> Scan \<Rightarrow> nat \<Rightarrow> Scan" where
  \<comment> \<open>one round of the scanning loop, at index \<open>i < length value\<close>\<close>
  "splitStep value st i =
     (let char = value ! i in
      case quote st of
        Some q \<Rightarrow>
          (let st' = st\<lparr>current := current st @ [char]\<rparr>
           in if char = q \<and> previousChar value i \<noteq> Some (CHR 0x5C)
              then st'\<lparr>quote := None\<rparr> else st')
      | None \<Rightarrow>
          if char = CHR 0x22 \<or> char = CHR 0x27 \<or> char = CHR 0x60
            then st\<lparr>quote := Some char, current := current st @ [char]\<rparr>
          else if char = CHR ''(''
            then st\<lparr>depth := depth st + 1, current := current st @ [char]\<rparr>
          else if char = CHR '')''
            then st\<lparr>depth := (if depth st > 0 then depth st - 1 else depth st),
                    current := current st @ [char]\<rparr>
          else if char = CHR '','' \<and> depth st = 0
            then st\<lparr>args := (if trim (current st) \<noteq> [] then args st @ [trim (current st)]
                             else args st),
                    current := []\<rparr>
          else st\<lparr>current := current st @ [char]\<rparr>)"

definition splitScan :: "string \<Rightarrow> nat \<Rightarrow> Scan" where
  \<comment> \<open>the state of the scanner after the first \<open>n\<close> characters\<close>
  "splitScan value n =
     foldl (splitStep value) \<lparr>args = [], current = [], depth = 0, quote = None\<rparr> [0..<n]"

definition splitArguments :: "string \<Rightarrow> string list" where
  "splitArguments value =
     (let st = splitScan value (length value)
      in if trim (current st) \<noteq> [] then args st @ [trim (current st)] else args st)"

definition numberPattern :: matcher where
  \<comment> \<open>\<open>-?\d+(?:\.\d+)?\<close>\<close>
  "numberPattern = seqs [opt (lit ''-''), many1 is_digit, opt (seq (lit ''.'') (many1 is_digit))]"

definition identifierPattern :: matcher where
  \<comment> \<open>\<open>[a-zA-Z_$][\w$]*\<close>\<close>
  "identifierPattern = seq (chr_if is_ident_start) (star is_ident_char)"

definition plusPattern :: matcher where
  \<comment> \<open>\<open>^([a-zA-Z_$][\w$]*)\s*([+-])\s*(-?\d+(?:\.\d+)?)$\<close>\<close>
  "plusPattern = seqs [cap identifierPattern, star is_space, cap (chr_if is_sign),
                       star is_space, cap numberPattern, eoi]"

definition evaluateToken :: "'n JsNumber \<Rightarrow> string \<Rightarrow> Replacements \<Rightarrow> string" where
  "evaluateToken js token replacements =
     (let trimmed = trim token in
      if trimmed = [] then []
      else
        let first = hd trimmed; lst = last trimmed in
        if (first = CHR 0x22 \<and> lst = CHR 0x22) \<or> (first = CHR 0x27 \<and> lst = CHR 0x27)
          then slice_inner trimmed
        else if first = CHR 0x60 \<and> lst = CHR 0x60
          then replaceIdentifiers (slice_inner trimmed) replacements
        else if match_anchored (seq numberPattern eoi) trimmed \<noteq> None
          then trimmed
        else case map_of replacements trimmed of
          Some v \<Rightarrow> v
        | None \<Rightarrow>
           (case match_anchored plusPattern trimmed of
              Some plusMatch \<Rightarrow>
                (let baseValue = (case map_of replacements (plusMatch ! 0) of
                                    Some v \<Rightarrow> v | None \<Rightarrow> plusMatch ! 0);
                     numericBase = js_Number js baseValue
                 in if js_isFinite js numericBase then
                      (let modifier = js_Number js (plusMatch ! 2);
                           result = (if plusMatch ! 1 = ''+''
                                     then js_add js numericBase modifier
                                     else js_sub js numericBase modifier)
                       in js_String js result)
                    else replaceIdentifiers trimmed replacements)
            | None \<Rightarrow> replaceIdentifiers trimmed replacements))"

definition join_space :: "string list \<Rightarrow> string" where
  \<comment> \<open>\<open>.join(" ")\<close>\<close>
  "join_space parts = (case parts of [] \<Rightarrow> [] | p # ps \<Rightarrow> p @ concat (map (\<lambda>q. CHR '' '' # q) ps))"

definition consolePattern :: matcher where
  \<comment> \<open>\<open>^console\.log\s*\((.*)\)\s*;?$\<close>\<close>
  "consolePattern = seqs [lit ''console.log'', star is_space, lit ''('', cap (star is_dot),
                          lit '')'', star is_space, opt (lit '';''), eoi]"

definition formatConsoleStatement :: "'n JsNumber \<Rightarrow> string \<Rightarrow> Replacements \<Rightarrow> string" where
  "formatConsoleStatement js template replacements =
     (let trimmed = trim template in
      if trimmed = [] then ''(no console output)''
      else case match_anchored consolePattern trimmed of
        None \<Rightarrow> replaceIdentifiers trimmed replacements
      | Some m \<Rightarrow>
         (let arguments = splitArguments (m ! 0) in
          if arguments = [] then []
          else
            let evaluated = filter (\<lambda>part. length part > 0)
                              (map (\<lambda>arg. evaluateToken js arg replacements) arguments);
                output = trim (join_space evaluated)
            in if length output = 0 then replaceIdentifiers trimmed replacements
               else output))"

definition formatCounter :: "string \<Rightarrow> int \<Rightarrow> string" where
  "formatCounter variable value = variable @ '' = '' @ String_int value"

definition extractPattern :: matcher where
  \<comment> \<open>\<open>console\.log\((['"])(.*?)\1\<close>\<close>
  "extractPattern = seqs [lit ''console.log('', cap (chr_if (\<lambda>c. c = CHR 0x27 \<or> c = CHR 0x22)),
                          cap (lazy_star is_dot), backref 0]"

definition extractMessage :: "string \<Rightarrow> string option" where
  "extractMessage body =
     (case match_search extractPattern body of None \<Rightarrow> None | Some m \<Rightarrow> Some (m ! 1))"

section \<open>Counter-loop parser\<close>

definition integerPattern :: matcher where
  \<comment> \<open>\<open>-?\d+\<close>\<close>
  "integerPattern = seq (opt (lit ''-'')) (many1 is_digit)"

definition startPattern :: matcher where
  \<comment> \<open>\<open>^(?:let|const|var)?\s*([a-zA-Z_$][\w$]*)\s*=\s*(-?\d+)$\<close>\<close>
  "startPattern =
     seqs [opt (alt (lit ''let'') (alt (lit ''const'') (lit ''var''))), star is_space,
           cap identifierPattern, star is_space, lit ''='', star is_space,
           cap integerPattern, eoi]"

definition variableSource :: "string \<Rightarrow> matcher" where
  \<comment> \<open>the captured variable, pasted into the source of a pattern as it is: its word
      characters stand for themselves, a \<open>$\<close> is the end-of-input assertion\<close>
  "variableSource variable = seqs (map (\<lambda>c. if c = CHR ''$'' then eoi else lit [c]) variable)"

definition conditionPattern :: "string \<Rightarrow> matcher" where
  \<comment> \<open>\<open>"^" + variable + "\\s*(<=|>=)\\s*(-?\\d+)$"\<close>\<close>
  "conditionPattern variable =
     seqs [variableSource variable, star is_space, cap (alt (lit ''<='') (lit ''>='')),
           star is_space, cap integerPattern, eoi]"

definition stepPattern :: "string \<Rightarrow> matcher" where
  \<comment> \<open>\<open>"^" + variable + "\\s*=\\s*" + variable + "\\s*([+-])\\s*(\\d+)$"\<close>\<close>
  "stepPattern variable =
     seqs [variableSource variable, star is_space, lit ''='', star is_space,
           variableSource variable, star is_space, cap (chr_if is_sign), star is_space,
           cap (many1 is_digit), eoi]"

definition toComparator :: "string \<Rightarrow> Comparator" where
  \<comment> \<open>the first group of the condition pattern is \<open><=\<close> or \<open>>=\<close>\<close>
  "toComparator s = (if s = ''<='' then LE else GE)"

definition comparatorText :: "Comparator \<Rightarrow> string" where
  "comparatorText c = (case c of LE \<Rightarrow> ''<='' | GE \<Rightarrow> ''>='')"

definition parseCounterConfig :: "Spans option \<Rightarrow> CounterParse ParseResult" where
  "parseCounterConfig parts =
     (case parts of
        None \<Rightarrow> Inl ''Missing editable parts.''
      | Some p \<Rightarrow>
       (let startText = getSpanText (p Start);
            conditionText = getSpanText (p Condition);
            stepText = getSpanText (p Step);
            bodyText = getSpanText (p Body)
        in (case match_anchored startPattern (strip_semicolon startText) of
          None \<Rightarrow> Inl ''Could not read the starting value. Keep it like let i = 1.''
        | Some startMatch \<Rightarrow>
         (let variable = startMatch ! 0;
              startValue = Number_int (startMatch ! 1)
          in (case match_anchored (conditionPattern variable) (strip_semicolon conditionText) of
            None \<Rightarrow> Inl (''Could not read the condition. Keep it like '' @ variable @ '' <= 5.'')
          | Some conditionMatch \<Rightarrow>
           (let comparator = toComparator (conditionMatch ! 0);
                endValue = Number_int (conditionMatch ! 1)
            in (case match_anchored (stepPattern variable) (strip_semicolon stepText) of
              None \<Rightarrow> Inl (''Could not read the step. Keep it like '' @ variable @ '' = ''
                            @ variable @ '' + 1.'')
            | Some stepMatch \<Rightarrow>
             (let stepDirection = (if stepMatch ! 0 = ''+'' then 1 else - 1);
                  magnitude = Number_int (stepMatch ! 1)
              in if magnitude = 0 then Inl ''The step must change the counter.''
                 else
                  (let stepValue = stepDirection * magnitude
                   in if comparator = LE \<and> stepValue \<le> 0
                        then Inl ''A <= comparison needs a positive step.''
                      else if comparator = GE \<and> stepValue \<ge> 0
                        then Inl ''A >= comparison needs a negative step.''
                      else (case deriveCounterValues startValue endValue comparator stepValue of
                        Inl e \<Rightarrow> Inl e
                      | Inr valuesResult \<Rightarrow>
                       (let message = (case extractMessage bodyText of
                                         None \<Rightarrow> ''Looping is learning'' | Some m \<Rightarrow> m);
                            config = \<lparr>c_variable = variable, c_start = startValue,
                                      c_comparator = comparator, c_end = endValue,
                                      c_step = stepValue, c_values = dv_values valuesResult,
                                      c_nextValue = dv_next valuesResult, c_message = message\<rparr>
                        in Inr \<lparr>cp_config = config,
                                cp_texts = \<lparr>t_start = startText, t_condition = conditionText,
                                             t_step = stepText,
                                             t_body = bodyText\<rparr>\<rparr>)))))))))))"

section \<open>Iteration-loop parser\<close>

fun split_comma :: "string \<Rightarrow> string list" where
  \<comment> \<open>\<open>.split(",")\<close>\<close>
  "split_comma [] = [[]]"
| "split_comma (c # cs) =
     (if c = CHR '','' then [] # split_comma cs
      else case split_comma cs of [] \<Rightarrow> [[c]] | x # xs \<Rightarrow> (c # x) # xs)"

definition arrayPattern :: matcher where
  \<comment> \<open>\<open>\[(.*)\]\<close>\<close>
  "arrayPattern = seqs [lit ''['', cap (star is_dot), lit '']'']"

fun readItems :: "'n JsNumber \<Rightarrow> string list \<Rightarrow> 'n list \<Rightarrow> 'n list ParseResult" where
  "readItems js [] vs = Inr vs"
| "readItems js (item # rest) vs =
     (let value = js_Number js item
      in if \<not> js_isFinite js value
           then Inl ''Only numbers are supported in this playground array.''
         else readItems js rest (vs @ [value]))"

definition parseForEachConfig :: "'n JsNumber \<Rightarrow> Spans option \<Rightarrow> 'n ForEachParse ParseResult" where
  "parseForEachConfig js parts =
     (case parts of
        None \<Rightarrow> Inl ''Missing editable parts.''
      | Some p \<Rightarrow>
       (let arrayText = getSpanText (p Start);
            bodyText = getSpanText (p Body)
        in (case match_search arrayPattern arrayText of
          None \<Rightarrow> Inl ''Could not read the array. Keep it like const values = [1, 2, 3];''
        | Some arrayMatch \<Rightarrow>
         (let rawItems = filter (\<lambda>item. length item > 0) (map trim (split_comma (arrayMatch ! 0)))
          in if length rawItems = 0 then Inl ''Add at least one number to the array.''
             else (case readItems js rawItems [] of
               Inl e \<Rightarrow> Inl e
             | Inr vs \<Rightarrow>
              (let message = (case extractMessage bodyText of None \<Rightarrow> ''Value'' | Some m \<Rightarrow> m);
                   config = \<lparr>f_values = vs, f_message = message\<rparr>
               in Inr \<lparr>fp_config = config,
                       fp_texts = \<lparr>t_start = arrayText, t_condition = getSpanText (p Condition),
                                    t_step = getSpanText (p Step), t_body = bodyText\<rparr>\<rparr>))))))"

section \<open>Loop executors\<close>

text \<open>The three arrays a build function pushes onto while it walks the values.\<close>

record Lines =
  l_events :: "LessonEvent list"
  l_trace :: "string list"
  l_console :: "string list"

definition forEach_indexed :: "('a \<Rightarrow> 'b \<Rightarrow> nat \<Rightarrow> 'a) \<Rightarrow> 'a \<Rightarrow> 'b list \<Rightarrow> 'a" where
  \<comment> \<open>\<open>xs.forEach((value, index) => ...)\<close> with the callback's effect on the arrays\<close>
  "forEach_indexed f acc xs = foldl (\<lambda>a p. f a (fst p) (snd p)) acc (zip xs [0..<length xs])"

definition counterIteration ::
  "'n JsNumber \<Rightarrow> CounterConfig \<Rightarrow> Texts \<Rightarrow> Lines \<Rightarrow> int \<Rightarrow> nat \<Rightarrow> Lines" where
  "counterIteration js config texts acc value index =
     (let iteration = index + 1;
          conditionTrace = ''Check '' @ c_variable config @ '' ''
             @ comparatorText (c_comparator config) @ '' '' @ String_int (c_end config)
             @ '' with '' @ c_variable config @ '' = '' @ String_int value @ '' -> '' @ ''yes'';
          acc1 = acc\<lparr>l_events := l_events acc
                       @ [\<lparr>highlight = Some Condition, trace = Some conditionTrace,
                            console = None,
                            counter = Some (formatCounter (c_variable config) value)\<rparr>],
                     l_trace := l_trace acc @ [conditionTrace]\<rparr>;
          consoleLine = formatConsoleStatement js (t_body texts)
                          [(c_variable config, String_int value)];
          bodyTrace = ''Body (iteration '' @ String_nat iteration
             @ ''): run console.log with '' @ c_variable config @ '' = '' @ String_int value;
          acc2 = acc1\<lparr>l_events := l_events acc1
                       @ [\<lparr>highlight = Some Body, trace = Some bodyTrace,
                            console = Some consoleLine,
                            counter = Some (formatCounter (c_variable config) value)\<rparr>],
                      l_trace := l_trace acc1 @ [bodyTrace],
                      l_console := l_console acc1 @ [consoleLine]\<rparr>;
          next = js_plus value (c_step config);
          stepTrace = ''Update: '' @ trim (t_step texts) @ '' -> ''
             @ formatCounter (c_variable config) next
      in acc2\<lparr>l_events := l_events acc2
                  @ [\<lparr>highlight = Some Step, trace = Some stepTrace, console = None,
                       counter = Some (formatCounter (c_variable config) next)\<rparr>],
               l_trace := l_trace acc2 @ [stepTrace]\<rparr>)"

definition buildCounterLessonData :: "'n JsNumber \<Rightarrow> LessonKey \<Rightarrow> CounterParse \<Rightarrow> LessonData" where
  "buildCounterLessonData js lesson parse =
     (let config = cp_config parse; texts = cp_texts parse;
          startCounter = formatCounter (c_variable config) (c_start config);
          startLabel = (if lesson = For then ''Start'' else ''Setup'');
          startTrace = startLabel @ '': '' @ trim (t_start texts) @ '' -> '' @ startCounter;
          acc0 = \<lparr>l_events = [\<lparr>highlight = Some Start, trace = Some startTrace,
                                console = None, counter = Some startCounter\<rparr>],
                  l_trace = [startTrace], l_console = []\<rparr>;
          acc1 = forEach_indexed (counterIteration js config texts) acc0 (c_values config);
          finalConditionTrace = ''Check '' @ c_variable config @ '' ''
             @ comparatorText (c_comparator config) @ '' '' @ String_int (c_end config)
             @ '' with '' @ c_variable config @ '' = '' @ String_int (c_nextValue config)
             @ '' -> no''
      in \<lparr>events = l_events acc1
             @ [\<lparr>highlight = Some Condition, trace = Some finalConditionTrace, console = None,
                  counter = Some (formatCounter (c_variable config) (c_nextValue config))\<rparr>,
                \<lparr>highlight = None, trace = None, console = None,
                  counter = Some (formatCounter (c_variable config) (c_nextValue config))\<rparr>],
          traceLines = l_trace acc1 @ [finalConditionTrace],
          consoleLines = l_console acc1,
          finalCounter = formatCounter (c_variable config) (c_nextValue config)\<rparr>)"

definition formatForEachCounter ::
  "'n JsNumber \<Rightarrow> nat option \<Rightarrow> 'n option \<Rightarrow> nat option \<Rightarrow> string" where
  "formatForEachCounter js index value count =
     (case index of
        None \<Rightarrow> ''index = -- (value --)''
      | Some i \<Rightarrow>
          if count \<noteq> None \<and> i \<ge> the count then ''index = '' @ String_nat i @ '' (done)''
          else (case value of
            None \<Rightarrow> ''index = '' @ String_nat i @ '' (waiting)''
          | Some v \<Rightarrow> ''index = '' @ String_nat i @ '' (value '' @ js_String js v @ '')''))"

definition element_at :: "'a list \<Rightarrow> nat \<Rightarrow> 'a option" where
  \<comment> \<open>\<open>xs[i]\<close>: undefined past the end\<close>
  "element_at xs i = (if i < length xs then Some (xs ! i) else None)"

definition forEachIteration ::
  "'n JsNumber \<Rightarrow> 'n ForEachConfig \<Rightarrow> Texts \<Rightarrow> Lines \<Rightarrow> 'n \<Rightarrow> nat \<Rightarrow> Lines" where
  "forEachIteration js config texts acc value index =
     (let conditionTrace = ''Check next item (index '' @ String_nat index @ '') -> yes'';
          acc1 = acc\<lparr>l_events := l_events acc
                       @ [\<lparr>highlight = Some Condition, trace = Some conditionTrace,
                            console = None,
                            counter = Some (formatForEachCounter js (Some index) (Some value)
                                              (Some (length (f_values config))))\<rparr>],
                     l_trace := l_trace acc @ [conditionTrace]\<rparr>;
          consoleLine = formatConsoleStatement js (t_body texts)
                          [(''value'', js_String js value), (''index'', String_nat index)];
          bodyTrace = ''Callback for index '' @ String_nat index @ '' with value ''
                        @ js_String js value;
          acc2 = acc1\<lparr>l_events := l_events acc1
                       @ [\<lparr>highlight = Some Body, trace = Some bodyTrace,
                            console = Some consoleLine,
                            counter = Some (formatForEachCounter js (Some index) (Some value)
                                              (Some (length (f_values config))))\<rparr>],
                      l_trace := l_trace acc1 @ [bodyTrace],
                      l_console := l_console acc1 @ [consoleLine]\<rparr>;
          stepTrace = (if trim (t_step texts) \<noteq> [] then trim (t_step texts)
                       else ''forEach moves to the next item.'')
      in acc2\<lparr>l_events := l_events acc2
                  @ [\<lparr>highlight = Some Step, trace = Some stepTrace, console = None,
                       counter = Some (formatForEachCounter js (Some (index + 1))
                                         (element_at (f_values config) (index + 1))
                                         (Some (length (f_values config))))\<rparr>],
               l_trace := l_trace acc2 @ [stepTrace]\<rparr>)"

definition buildForEachLessonData :: "'n JsNumber \<Rightarrow> 'n ForEachParse \<Rightarrow> LessonData" where
  "buildForEachLessonData js parse =
     (let config = fp_config parse; texts = fp_texts parse;
          startTrace = ''Start: array has '' @ String_nat (length (f_values config))
                         @ '' item(s).'';
          acc0 = \<lparr>l_events = [\<lparr>highlight = Some Start, trace = Some startTrace, console = None,
                                counter = Some (formatForEachCounter js None None None)\<rparr>],
                  l_trace = [startTrace], l_console = []\<rparr>;
          acc1 = forEach_indexed (forEachIteration js config texts) acc0 (f_values config);
          finalTrace = ''Check next item -> no (array finished).'';
          doneCounter = formatForEachCounter js (Some (length (f_values config))) None
                          (Some (length (f_values config)))
      in \<lparr>events = l_events acc1
             @ [\<lparr>highlight = Some Condition, trace = Some finalTrace, console = None,
                  counter = Some doneCounter\<rparr>,
                \<lparr>highlight = None, trace = None, console = None, counter = Some doneCounter\<rparr>],
          traceLines = l_trace acc1 @ [finalTrace],
          consoleLines = l_console acc1,
          finalCounter = doneCounter\<rparr>)"

definition collectLessonData ::
  "'n JsNumber \<Rightarrow> (LessonKey \<Rightarrow> Spans option) \<Rightarrow> LessonKey \<Rightarrow> LessonData ParseResult" where
  "collectLessonData js editableSpans lesson =
     (if lesson = Foreach then
        (case parseForEachConfig js (editableSpans Foreach) of
           Inl e \<Rightarrow> Inl e
         | Inr v \<Rightarrow> Inr (buildForEachLessonData js v))
      else
        (case parseCounterConfig (editableSpans lesson) of
           Inl e \<Rightarrow> Inl e
         | Inr v \<Rightarrow> Inr (buildCounterLessonData js lesson v)))"

definition defaultSpans :: "LessonKey \<Rightarrow> Spans option" where
  \<comment> \<open>the page as loaded or reset: every span holds its default text\<close>
  "defaultSpans lesson = Some (\<lambda>part. Some (defaultText lesson part))"

section \<open>Sample inputs and auxiliary notions\<close>

text \<open>
  Concrete inputs on which the properties below are run, a substring test, and the match
  that a pattern reports from a position: the first of the results it returns.
\<close>

definition first_result :: "matcher \<Rightarrow> mstate \<Rightarrow> mstate option" where
  "first_result m st = (case m st of [] \<Rightarrow> None | r # _ \<Rightarrow> Some r)"

definition contains_text :: "string \<Rightarrow> string \<Rightarrow> bool" where
  "contains_text w s = list_ex (\<lambda>k. take (length w) (drop k s) = w) [0..<Suc (length s)]"

definition escapedQuoteSample :: string where
  \<comment> \<open>the seven characters \<open>"a\",b"\<close>\<close>
  "escapedQuoteSample = [CHR 0x22, CHR ''a'', CHR 0x5C, CHR 0x22, CHR '','', CHR ''b'', CHR 0x22]"

definition sampleForEachParse :: "int option ForEachParse" where
  "sampleForEachParse =
     \<lparr>fp_config = \<lparr>f_values = [Some 2, Some 4, Some 6], f_message = ''Value''\<rparr>,
      fp_texts = \<lparr>t_start = defaultText Foreach Start, t_condition = defaultText Foreach Condition,
                   t_step = defaultText Foreach Step, t_body = defaultText Foreach Body\<rparr>\<rparr>"

definition mismatchParts :: "string \<Rightarrow> string \<Rightarrow> Spans" where
  "mismatchParts condition step part =
     Some (case part of Start \<Rightarrow> ''let i = 1'' | Condition \<Rightarrow> condition
           | Step \<Rightarrow> step | Body \<Rightarrow> ''console.log(i)'')"

definition declaratorParts :: "string \<Rightarrow> string \<Rightarrow> Spans" where
  "declaratorParts startText variable part =
     Some (case part of Start \<Rightarrow> startText | Condition \<Rightarrow> variable @ '' <= 7''
           | Step \<Rightarrow> variable @ '' = '' @ variable @ '' + 1''
           | Body \<Rightarrow> ''console.log('' @ variable @ '')'')"

section \<open>Verified properties\<close>

subsection \<open>Sequence derivation\<close>

lemma double_round_safe: "\<bar>x\<bar> \<le> 2 ^ 53 \<Longrightarrow> double_round x = x"
  by (auto simp: double_round_def double_round_abs_def)

lemma js_plus_safe: "\<bar>a + b\<bar> \<le> 2 ^ 53 \<Longrightarrow> js_plus a b = a + b"
  by (simp add: js_plus_def double_round_safe)

lemma deriveLoop_stops:
  "g + n \<le> 200 \<Longrightarrow> (\<forall>k. 1 \<le> k \<and> k \<le> n \<longrightarrow> \<bar>cur + int k * step\<bar> \<le> 2 ^ 53)
   \<Longrightarrow> (\<forall>k<n. check c e (cur + int k * step)) \<Longrightarrow> \<not> check c e (cur + int n * step)
   \<Longrightarrow> deriveLoop c e step vs cur g
       = Inr \<lparr>dv_values = vs @ map (\<lambda>k. cur + int k * step) [0..<n], dv_next = cur + int n * step\<rparr>"
proof (induction n arbitrary: vs cur g)
  case 0
  then show ?case by (simp add: deriveLoop.simps)
next
  case (Suc n)
  have c0: "check c e cur" using Suc.prems(3) by force
  have "1 \<le> (1::nat) \<and> (1::nat) \<le> Suc n" by simp
  then have "\<bar>cur + int 1 * step\<bar> \<le> 2 ^ 53" using Suc.prems(2) by blast
  then have add: "js_plus cur step = cur + step" by (simp add: js_plus_safe)
  have safe: "\<forall>k. 1 \<le> k \<and> k \<le> n \<longrightarrow> \<bar>(cur + step) + int k * step\<bar> \<le> 2 ^ 53"
  proof (intro allI impI)
    fix k assume "1 \<le> k \<and> k \<le> n"
    then have "1 \<le> Suc k \<and> Suc k \<le> Suc n" by simp
    then have "\<bar>cur + int (Suc k) * step\<bar> \<le> 2 ^ 53" using Suc.prems(2) by blast
    then show "\<bar>(cur + step) + int k * step\<bar> \<le> 2 ^ 53" by (simp add: algebra_simps)
  qed
  have rest: "\<forall>k<n. check c e ((cur + step) + int k * step)"
  proof (intro allI impI)
    fix k assume "k < n"
    then have "check c e (cur + int (Suc k) * step)" using Suc.prems(3) by blast
    then show "check c e ((cur + step) + int k * step)" by (simp add: algebra_simps)
  qed
  have stop: "\<not> check c e ((cur + step) + int n * step)"
    using Suc.prems(4) by (simp add: algebra_simps)
  have "deriveLoop c e step (vs @ [cur]) (cur + step) (g + 1)
      = Inr \<lparr>dv_values = (vs @ [cur]) @ map (\<lambda>k. (cur + step) + int k * step) [0..<n],
             dv_next = (cur + step) + int n * step\<rparr>"
    using Suc.IH[of "g + 1" "cur + step" "vs @ [cur]"] Suc.prems(1) safe rest stop by simp
  moreover have "map (\<lambda>k. cur + int k * step) [0..<Suc n]
      = cur # map (\<lambda>k. (cur + step) + int k * step) [0..<n]"
    by (simp add: upt_conv_Cons map_Suc_upt[symmetric] algebra_simps del: upt_Suc)
  ultimately show ?case
    using c0 Suc.prems(1) add
    by (subst deriveLoop.simps) (simp add: algebra_simps del: upt_Suc)
qed

lemma deriveLoop_runaway:
  "g \<le> 200 \<Longrightarrow> (\<forall>k\<le>200 - g. \<bar>cur + int k * step\<bar> \<le> 2 ^ 53 \<and> check c e (cur + int k * step))
   \<Longrightarrow> deriveLoop c e step vs cur g = Inl ''This loop would run too many times. Adjust the numbers.''"
proof (induction c e step vs cur g rule: deriveLoop.induct)
  case (1 c e step vs cur g)
  have c0: "check c e cur" using "1.prems"(2) by force
  show ?case
  proof (cases "g + 1 > 200")
    case True
    then show ?thesis using c0 by (subst deriveLoop.simps) simp
  next
    case False
    have all: "\<forall>k\<le>200 - (g + 1). \<bar>(cur + step) + int k * step\<bar> \<le> 2 ^ 53
                 \<and> check c e ((cur + step) + int k * step)"
    proof (intro allI impI)
      fix k assume "k \<le> 200 - (g + 1)"
      then have "Suc k \<le> 200 - g" using False by simp
      then have "\<bar>cur + int (Suc k) * step\<bar> \<le> 2 ^ 53 \<and> check c e (cur + int (Suc k) * step)"
        using "1.prems"(2) by blast
      then show "\<bar>(cur + step) + int k * step\<bar> \<le> 2 ^ 53 \<and> check c e ((cur + step) + int k * step)"
        by (simp add: algebra_simps)
    qed
    have "\<bar>(cur + step) + int 0 * step\<bar> \<le> 2 ^ 53" using all by blast
    then have add: "js_plus cur step = cur + step" by (simp add: js_plus_safe)
    have "deriveLoop c e step (vs @ [cur]) (js_plus cur step) (g + 1)
          = Inl ''This loop would run too many times. Adjust the numbers.''"
      using "1.IH"[OF c0 refl refl refl] False all unfolding add by simp
    then show ?thesis using c0 False by (subst deriveLoop.simps) simp
  qed
qed

lemma deriveLoop_error:
  "deriveLoop c e step vs cur g = Inl msg
   \<Longrightarrow> msg = ''This loop would run too many times. Adjust the numbers.''"
proof (induction c e step vs cur g rule: deriveLoop.induct)
  case (1 c e step vs cur g)
  show ?case
  proof (cases "check c e cur")
    case False
    then show ?thesis using "1.prems" by (subst (asm) deriveLoop.simps) simp
  next
    case True
    show ?thesis
    proof (cases "g + 1 > 200")
      case over: True
      then show ?thesis using True "1.prems" by (subst (asm) deriveLoop.simps) simp
    next
      case under: False
      have "deriveLoop c e step (vs @ [cur]) (js_plus cur step) (g + 1) = Inl msg"
        using True under "1.prems" by (subst (asm) deriveLoop.simps) simp
      then show ?thesis using "1.IH"[OF True refl refl refl] under by simp
    qed
  qed
qed

lemma deriveCounterValues_error:
  "deriveCounterValues s e c step = Inl msg
   \<Longrightarrow> msg = ''This loop would run too many times. Adjust the numbers.''"
  unfolding deriveCounterValues_def by (rule deriveLoop_error)

text \<open>
  Claim C1 fails where the doubles no longer hold every integer: from \<open>2^53\<close> with step
  1 up to \<open>2^53 + 2\<close> the arithmetic sequence has three entries, but the sum
  \<open>2^53 + 1\<close> rounds back to \<open>2^53\<close>, the counter never advances and the guard fails
  the derivation.
\<close>

theorem deriveCounterValues_counterexample:
  "check LE 9007199254740994 (9007199254740992 + int 0 * 1)
   \<and> check LE 9007199254740994 (9007199254740992 + int 1 * 1)
   \<and> check LE 9007199254740994 (9007199254740992 + int 2 * 1)
   \<and> \<not> check LE 9007199254740994 (9007199254740992 + int 3 * 1)
   \<and> js_plus 9007199254740992 1 = 9007199254740992
   \<and> deriveCounterValues 9007199254740992 9007199254740994 LE 1
       = Inl ''This loop would run too many times. Adjust the numbers.''"
  by code_simp

text \<open>
  Claim C1, amended. For all integers \<open>start\<close>, \<open>end\<close>, \<open>step\<close> and both comparators,
  as long as the entries concerned have a magnitude of at most \<open>2^53\<close>: when the
  arithmetic sequence \<open>start, start + step, ...\<close>, taken while the comparison against
  \<open>end\<close> holds, has \<open>n \<le> 200\<close> entries, \<open>deriveCounterValues\<close> succeeds with exactly
  these \<open>n\<close> values and with \<open>next = start + n * step\<close>, the first value that fails the
  comparison; when the first 201 entries all pass the comparison (the sequence is longer
  than 200, or never ends), it fails with the message of the guard.
\<close>

theorem deriveCounterValues_safe:
  "(n \<le> 200 \<and> (\<forall>k\<le>n. \<bar>start + int k * step\<bar> \<le> 2 ^ 53)
     \<and> (\<forall>k<n. check cmp e (start + int k * step)) \<and> \<not> check cmp e (start + int n * step)
     \<longrightarrow> deriveCounterValues start e cmp step
         = Inr \<lparr>dv_values = map (\<lambda>k. start + int k * step) [0..<n], dv_next = start + int n * step\<rparr>)
   \<and> ((\<forall>k\<le>200. \<bar>start + int k * step\<bar> \<le> 2 ^ 53 \<and> check cmp e (start + int k * step))
     \<longrightarrow> deriveCounterValues start e cmp step
         = Inl ''This loop would run too many times. Adjust the numbers.'')"
  unfolding deriveCounterValues_def
  using deriveLoop_stops[of 0 n start step cmp e "[]"] deriveLoop_runaway[of 0 start step cmp e "[]"]
  by simp

theorem deriveCounterValues_safe_witness:
  "deriveCounterValues 1 5 LE 1 = Inr \<lparr>dv_values = [1, 2, 3, 4, 5], dv_next = 6\<rparr>
   \<and> deriveCounterValues 10 (- 2) GE (- 4) = Inr \<lparr>dv_values = [10, 6, 2, - 2], dv_next = - 6\<rparr>
   \<and> deriveCounterValues 7 0 GE 0 = Inl ''This loop would run too many times. Adjust the numbers.''
   \<and> deriveCounterValues 1 300 LE 1 = Inl ''This loop would run too many times. Adjust the numbers.''"
proof -
  have a: "\<forall>k\<le>5. \<bar>1 + int k * 1\<bar> \<le> (2::int) ^ 53" "\<forall>k<5. check LE 5 (1 + int k * 1)"
    "\<not> check LE 5 (1 + int 5 * 1)"
    by (auto simp: check_def)
  have b: "\<forall>k\<le>4. \<bar>10 + int k * (- 4)\<bar> \<le> (2::int) ^ 53" "\<forall>k<4. check GE (- 2) (10 + int k * (- 4))"
    "\<not> check GE (- 2) (10 + int 4 * (- 4))"
    by (auto simp: check_def)
  have c: "\<forall>k\<le>200. \<bar>7 + int k * 0\<bar> \<le> (2::int) ^ 53 \<and> check GE 0 (7 + int k * 0)"
    by (simp add: check_def)
  have d: "\<forall>k\<le>200. \<bar>1 + int k * 1\<bar> \<le> (2::int) ^ 53 \<and> check LE 300 (1 + int k * 1)"
    by (auto simp: check_def)
  have m: "map (\<lambda>k. 1 + int k * 1) [0..<5] = [1, 2, 3, 4, 5]"
    "map (\<lambda>k. 10 + int k * (- 4)) [0..<4] = [10, 6, 2, - 2]" by code_simp+
  show ?thesis
    using a b c d m
      deriveCounterValues_safe[of 5 1 1 LE 5] deriveCounterValues_safe[of 4 10 "- 4" GE "- 2"]
      deriveCounterValues_safe[of 0 7 0 GE 0] deriveCounterValues_safe[of 0 1 1 LE 300]
    by simp
qed

subsection \<open>Counter-loop parser\<close>

lemma parse_default_for:
  \<open>parseCounterConfig (defaultSpans For) =
     Inr \<lparr>cp_config = \<lparr>c_variable = ''i'', c_start = 1, c_comparator = LE, c_end = 5,
                        c_step = 1, c_values = [1, 2, 3, 4, 5], c_nextValue = 6,
                        c_message = ''Looping is learning''\<rparr>,
          cp_texts = \<lparr>t_start = ''let i = 1'', t_condition = ''i <= 5'', t_step = ''i = i + 1'',
                       t_body = ''console.log("Looping is learning", i);''\<rparr>\<rparr>\<close>
  by code_simp

lemma parse_default_while:
  \<open>parseCounterConfig (defaultSpans While) =
     Inr \<lparr>cp_config = \<lparr>c_variable = ''i'', c_start = 1, c_comparator = LE, c_end = 5,
                        c_step = 1, c_values = [1, 2, 3, 4, 5], c_nextValue = 6,
                        c_message = ''Looping is learning''\<rparr>,
          cp_texts = \<lparr>t_start = ''let i = 1;'', t_condition = ''i <= 5'', t_step = ''i = i + 1;'',
                       t_body = ''console.log("Looping is learning", i);''\<rparr>\<rparr>\<close>
  by code_simp

lemma String_int_6: "String_int 6 = ''6''"
  by code_simp

text \<open>
  Claim C2. The default fragments of the \<open>for\<close> lesson (\<open>let i = 1\<close>, \<open>i <= 5\<close>,
  \<open>i = i + 1\<close> and the logging statement with \<open>i\<close>) parse, the values visited are
  exactly 1, 2, 3, 4, 5 and the final counter is \<open>i = 6\<close>; the defaults of the \<open>while\<close>
  lesson, which differ by trailing semicolons only, give the same values and the same
  final counter.
\<close>

theorem counter_defaults:
  "(case parseCounterConfig (defaultSpans For) of
      Inl e \<Rightarrow> False
    | Inr parse \<Rightarrow> c_values (cp_config parse) = [1, 2, 3, 4, 5]
        \<and> finalCounter (buildCounterLessonData js For parse) = ''i = 6'')
   \<and> (case parseCounterConfig (defaultSpans While) of
      Inl e \<Rightarrow> False
    | Inr parse \<Rightarrow> c_values (cp_config parse) = [1, 2, 3, 4, 5]
        \<and> finalCounter (buildCounterLessonData js While parse) = ''i = 6'')"
  by (simp add: parse_default_for parse_default_while buildCounterLessonData_def Let_def
        formatCounter_def String_int_6)

lemma match_anchored_Some:
  "match_anchored m s = Some caps \<Longrightarrow> \<exists>r\<in>set (m (s, [])). snd r = caps"
  by (auto simp: match_anchored_def split: list.splits)

lemma seqs_Nil_mem: "r \<in> set (seqs [] st) \<longleftrightarrow> r = st"
  by (simp add: seqs_def)

lemma seqs_Cons_mem: "r \<in> set (seqs (m # ms) st) \<longleftrightarrow> (\<exists>x\<in>set (m st). r \<in> set (seqs ms x))"
  by (auto simp: seqs_def seq_def)

lemma lit_caps: "r \<in> set (lit w st) \<Longrightarrow> snd r = snd st"
  by (auto simp: lit_def split: if_splits)

lemma eoi_caps: "r \<in> set (eoi st) \<Longrightarrow> snd r = snd st"
  by (auto simp: eoi_def split: if_splits)

lemma star_caps: "r \<in> set (star P st) \<Longrightarrow> snd r = snd st"
  by (auto simp: star_def)

lemma variableSource_caps: "r \<in> set (variableSource v st) \<Longrightarrow> snd r = snd st"
proof (induction v arbitrary: st)
  case Nil
  then show ?case by (simp add: variableSource_def seqs_Nil_mem)
next
  case (Cons c v)
  from Cons.prems obtain x
    where x: "x \<in> set ((if c = CHR ''$'' then eoi else lit [c]) st)"
      and r: "r \<in> set (variableSource v x)"
    by (auto simp: variableSource_def seqs_Cons_mem)
  have "snd x = snd st" using x by (auto dest: eoi_caps lit_caps split: if_splits)
  then show ?case using Cons.IH[OF r] by simp
qed

lemma cap_chr_if: "r \<in> set (cap (chr_if P) st) \<Longrightarrow> \<exists>c. P c \<and> snd r = snd st @ [[c]]"
proof (cases "fst st")
  case Nil
  assume "r \<in> set (cap (chr_if P) st)"
  then show ?thesis using Nil by (simp add: cap_def chr_if_def)
next
  case (Cons c cs)
  assume "r \<in> set (cap (chr_if P) st)"
  then show ?thesis using Cons by (auto simp: cap_def chr_if_def split: if_splits)
qed

lemma cap_plus:
  assumes "r \<in> set (cap (many1 P) st)"
  shows "\<exists>ds. ds \<noteq> [] \<and> list_all P ds \<and> snd r = snd st @ [ds]"
proof -
  let ?s = "fst st"
  from assms obtain k where k: "1 \<le> k" "k \<le> length (takeWhile P ?s)"
    and r: "r = (drop k ?s, snd st @ [take (length ?s - length (drop k ?s)) ?s])"
    by (auto simp: cap_def many1_def)
  have kl: "k \<le> length ?s" using k(2) length_takeWhile_le[of P ?s] by simp
  then have t: "take (length ?s - length (drop k ?s)) ?s = take k ?s" by simp
  have "take k ?s = take k (takeWhile P ?s @ dropWhile P ?s)" by simp
  also have "\<dots> = take k (takeWhile P ?s)" using k(2) by (simp del: takeWhile_dropWhile_id)
  finally have p: "take k ?s = take k (takeWhile P ?s)" .
  have "set (take k (takeWhile P ?s)) \<subseteq> set (takeWhile P ?s)" by (rule set_take_subset)
  then have "list_all P (take k ?s)"
    unfolding p by (auto simp: list_all_iff dest: set_takeWhileD)
  moreover have "take k ?s \<noteq> []" using k(1) kl by auto
  ultimately show ?thesis using r t by auto
qed

lemma stepPattern_captures:
  assumes "match_anchored (stepPattern v) s = Some stepMatch"
  shows "\<exists>c ds. stepMatch = [[c], ds] \<and> is_sign c \<and> ds \<noteq> [] \<and> list_all is_digit ds"
proof -
  from match_anchored_Some[OF assms] obtain r
    where r: "r \<in> set (stepPattern v (s, []))" and caps: "snd r = stepMatch" by auto
  from r obtain x1 x2 x3 x4 x5 x6 x7 x8 x9 where
    "x1 \<in> set (variableSource v (s, []))" "x2 \<in> set (star is_space x1)"
    "x3 \<in> set (lit ''='' x2)" "x4 \<in> set (star is_space x3)"
    "x5 \<in> set (variableSource v x4)" "x6 \<in> set (star is_space x5)"
    "x7 \<in> set (cap (chr_if is_sign) x6)" "x8 \<in> set (star is_space x7)"
    "x9 \<in> set (cap (many1 is_digit) x8)" "r \<in> set (eoi x9)"
    unfolding stepPattern_def seqs_Cons_mem seqs_Nil_mem by auto
  then have "snd x6 = []" and 7: "\<exists>c. is_sign c \<and> snd x7 = snd x6 @ [[c]]"
    and "snd x8 = snd x7" and 9: "\<exists>ds. ds \<noteq> [] \<and> list_all is_digit ds \<and> snd x9 = snd x8 @ [ds]"
    and "snd r = snd x9"
    by (auto dest!: variableSource_caps star_caps lit_caps eoi_caps cap_chr_if cap_plus)
  then show ?thesis using caps by auto
qed

lemma digits_value_nonneg: "0 \<le> digits_value ds"
proof -
  have "0 \<le> a \<Longrightarrow> 0 \<le> foldl (\<lambda>a c. 10 * a + int (digit_value c)) a ds" for a
    by (induction ds arbitrary: a) simp_all
  then show ?thesis by (simp add: digits_value_def)
qed

lemma double_round_nonneg: "0 \<le> x \<Longrightarrow> 0 \<le> double_round x"
  by (auto simp: double_round_def double_round_abs_def Let_def pos_imp_zdiv_nonneg_iff)

lemma Number_int_digits: "ds \<noteq> [] \<Longrightarrow> list_all is_digit ds \<Longrightarrow> 0 \<le> Number_int ds"
  by (cases ds) (auto simp: Number_int_def is_digit_def digits_value_nonneg double_round_nonneg)

text \<open>
  Claim C3. Whenever the start, condition and step fragments of a counter lesson match
  their patterns and the magnitude of the step is not zero: a \<open><=\<close> condition with a
  step written with \<open>-\<close> fails with exactly \<open>A <= comparison needs a positive step.\<close>,
  and a \<open>>=\<close> condition with a step written with \<open>+\<close> fails with exactly
  \<open>A >= comparison needs a negative step.\<close>; in both cases collecting the lesson data
  returns the same failure, so no lesson data is built.
\<close>

theorem sign_mismatch_fails:
  assumes "lesson \<noteq> Foreach" and "editableSpans lesson = Some p"
    and "match_anchored startPattern (strip_semicolon (getSpanText (p Start))) = Some startMatch"
    and "match_anchored (conditionPattern (startMatch ! 0))
           (strip_semicolon (getSpanText (p Condition))) = Some conditionMatch"
    and "match_anchored (stepPattern (startMatch ! 0))
           (strip_semicolon (getSpanText (p Step))) = Some stepMatch"
    and "Number_int (stepMatch ! 1) \<noteq> 0"
  shows "(conditionMatch ! 0 = ''<='' \<and> stepMatch ! 0 = ''-'' \<longrightarrow>
            parseCounterConfig (editableSpans lesson)
              = Inl ''A <= comparison needs a positive step.''
          \<and> collectLessonData js editableSpans lesson
              = Inl ''A <= comparison needs a positive step.'')
       \<and> (conditionMatch ! 0 = ''>='' \<and> stepMatch ! 0 = ''+'' \<longrightarrow>
            parseCounterConfig (editableSpans lesson)
              = Inl ''A >= comparison needs a negative step.''
          \<and> collectLessonData js editableSpans lesson
              = Inl ''A >= comparison needs a negative step.'')"
proof -
  from stepPattern_captures[OF assms(5)] obtain c ds
    where "stepMatch = [[c], ds]" "ds \<noteq> []" "list_all is_digit ds" by auto
  then have "0 \<le> Number_int (stepMatch ! 1)" by (simp add: Number_int_digits)
  then have pos: "0 < Number_int (stepMatch ! 1)" using assms(6) by simp
  show ?thesis
    using assms(1-5) pos
    by (simp add: collectLessonData_def parseCounterConfig_def Let_def toComparator_def)
qed

theorem sign_mismatch_fails_witness:
  "collectLessonData intNumbers (\<lambda>lesson. Some (mismatchParts ''i <= 5'' ''i = i - 1'')) For
     = Inl ''A <= comparison needs a positive step.''
   \<and> collectLessonData intNumbers (\<lambda>lesson. Some (mismatchParts ''i >= 5'' ''i = i + 2'')) While
     = Inl ''A >= comparison needs a negative step.''"
proof -
  have a: "match_anchored startPattern
             (strip_semicolon (getSpanText (mismatchParts ''i <= 5'' ''i = i - 1'' Start)))
           = Some [''i'', ''1'']"
    "match_anchored (conditionPattern ([''i'', ''1''] ! 0))
       (strip_semicolon (getSpanText (mismatchParts ''i <= 5'' ''i = i - 1'' Condition)))
     = Some [''<='', ''5'']"
    "match_anchored (stepPattern ([''i'', ''1''] ! 0))
       (strip_semicolon (getSpanText (mismatchParts ''i <= 5'' ''i = i - 1'' Step)))
     = Some [''-'', ''1'']"
    "Number_int ([''-'', ''1''] ! 1) \<noteq> 0"
    by code_simp+
  have b: "match_anchored startPattern
             (strip_semicolon (getSpanText (mismatchParts ''i >= 5'' ''i = i + 2'' Start)))
           = Some [''i'', ''1'']"
    "match_anchored (conditionPattern ([''i'', ''1''] ! 0))
       (strip_semicolon (getSpanText (mismatchParts ''i >= 5'' ''i = i + 2'' Condition)))
     = Some [''>='', ''5'']"
    "match_anchored (stepPattern ([''i'', ''1''] ! 0))
       (strip_semicolon (getSpanText (mismatchParts ''i >= 5'' ''i = i + 2'' Step)))
     = Some [''+'', ''2'']"
    "Number_int ([''+'', ''2''] ! 1) \<noteq> 0"
    by code_simp+
  show ?thesis
    using
      sign_mismatch_fails[where lesson = For and js = intNumbers
        and editableSpans = "\<lambda>lesson. Some (mismatchParts ''i <= 5'' ''i = i - 1'')"
        and p = "mismatchParts ''i <= 5'' ''i = i - 1''"
        and startMatch = "[''i'', ''1'']" and conditionMatch = "[''<='', ''5'']"
        and stepMatch = "[''-'', ''1'']", OF _ _ a]
      sign_mismatch_fails[where lesson = While and js = intNumbers
        and editableSpans = "\<lambda>lesson. Some (mismatchParts ''i >= 5'' ''i = i + 2'')"
        and p = "mismatchParts ''i >= 5'' ''i = i + 2''"
        and startMatch = "[''i'', ''1'']" and conditionMatch = "[''>='', ''5'']"
        and stepMatch = "[''+'', ''2'']", OF _ _ b]
    by simp
qed

text \<open>
  No condition at all passes the condition stage when the captured variable contains a
  \<open>$\<close>: after the assertion the input is at its end, and the comparator cannot follow.
\<close>

lemma variableSource_Cons_mem:
  "r \<in> set (variableSource (c # v) st)
   \<longleftrightarrow> (\<exists>x\<in>set ((if c = CHR ''$'' then eoi else lit [c]) st). r \<in> set (variableSource v x))"
  by (simp add: variableSource_def seqs_Cons_mem)

lemma variableSource_at_end:
  "r \<in> set (variableSource v st) \<Longrightarrow> fst st = [] \<Longrightarrow> fst r = []"
proof (induction v arbitrary: st)
  case Nil
  then show ?case by (simp add: variableSource_def seqs_Nil_mem)
next
  case (Cons c v)
  from Cons.prems(1) obtain x
    where x: "x \<in> set ((if c = CHR ''$'' then eoi else lit [c]) st)"
      and r: "r \<in> set (variableSource v x)"
    unfolding variableSource_Cons_mem by blast
  have "fst x = []" using x Cons.prems(2) by (auto simp: eoi_def lit_def split: if_splits)
  then show ?case using Cons.IH[OF r] by simp
qed

lemma variableSource_dollar:
  "r \<in> set (variableSource v st) \<Longrightarrow> CHR ''$'' \<in> set v \<Longrightarrow> fst r = []"
proof (induction v arbitrary: st)
  case Nil
  then show ?case by simp
next
  case (Cons c v)
  from Cons.prems(1) obtain x
    where x: "x \<in> set ((if c = CHR ''$'' then eoi else lit [c]) st)"
      and r: "r \<in> set (variableSource v x)"
    unfolding variableSource_Cons_mem by blast
  show ?case
  proof (cases "c = CHR ''$''")
    case True
    then have "fst x = []" using x by (auto simp: eoi_def split: if_splits)
    then show ?thesis using variableSource_at_end[OF r] by simp
  next
    case False
    then have "CHR ''$'' \<in> set v" using Cons.prems(2) by simp
    then show ?thesis using Cons.IH[OF r] by simp
  qed
qed

lemma dollar_variable_never_matches:
  assumes "CHR ''$'' \<in> set variable"
  shows "match_anchored (conditionPattern variable) s = None"
proof -
  have "conditionPattern variable (s, []) = []"
  proof (rule ccontr)
    assume "conditionPattern variable (s, []) \<noteq> []"
    then obtain r where "r \<in> set (conditionPattern variable (s, []))"
      by (cases "conditionPattern variable (s, [])") auto
    then obtain x1 x2 x3 where
      x1: "x1 \<in> set (variableSource variable (s, []))" and
      x2: "x2 \<in> set (star is_space x1)" and
      x3: "x3 \<in> set (cap (alt (lit ''<='') (lit ''>='')) x2)"
      unfolding conditionPattern_def seqs_Cons_mem by blast
    have "fst x1 = []" using variableSource_dollar[OF x1 assms] .
    then have "fst x2 = []" using x2 by (auto simp: star_def)
    then show False using x3 by (auto simp: cap_def alt_def lit_def)
  qed
  then show ?thesis by (simp add: match_anchored_def)
qed

text \<open>
  Claim C4, at the identifier \<open>$i\<close>. The start stage accepts \<open>let $i = 1\<close> and
  captures the variable \<open>$i\<close>, but the condition \<open>$i <= 5\<close>, written with that very
  variable, does not pass the condition stage: the variable is pasted into the pattern
  unescaped, where its \<open>$\<close> asserts the end of the input.
\<close>

theorem dollar_variable_condition:
  "match_anchored startPattern (strip_semicolon (getSpanText (Some ''let $i = 1'')))
     = Some [''$i'', ''1'']
   \<and> match_anchored (conditionPattern ''$i'') (strip_semicolon (getSpanText (Some ''$i <= 5'')))
     = None
   \<and> parseCounterConfig (Some (\<lambda>part. Some (case part of
           Start \<Rightarrow> ''let $i = 1'' | Condition \<Rightarrow> ''$i <= 5''
         | Step \<Rightarrow> ''$i = $i + 1'' | Body \<Rightarrow> ''console.log($i)'')))
     = Inl ''Could not read the condition. Keep it like $i <= 5.''"
  by code_simp

lemma match_anchored_first: "match_anchored m s = map_option snd (first_result m (s, []))"
  by (simp add: match_anchored_def first_result_def split: list.splits)

lemma first_seq:
  "first_result a st = Some x \<Longrightarrow> first_result b x = Some r \<Longrightarrow> first_result (seq a b) st = Some r"
  by (auto simp: first_result_def seq_def split: list.splits)

lemma first_seqs_Nil: "first_result (seqs []) st = Some st"
  by (simp add: first_result_def seqs_def)

lemma first_seqs_Cons:
  "first_result m st = Some x \<Longrightarrow> first_result (seqs ms) x = Some r
   \<Longrightarrow> first_result (seqs (m # ms)) st = Some r"
  using first_seq[of m st x "seqs ms" r] by (simp add: seqs_def)

lemma first_lit: "first_result (lit w) (w @ t, caps) = Some (t, caps)"
  by (simp add: first_result_def lit_def)

lemma first_chr_if: "P c \<Longrightarrow> first_result (chr_if P) (c # t, caps) = Some (t, caps)"
  by (simp add: first_result_def chr_if_def)

lemma first_eoi: "first_result eoi ([], caps) = Some ([], caps)"
  by (simp add: first_result_def eoi_def)

lemma takeWhile_run:
  assumes "list_all P ws" and "t = [] \<or> \<not> P (hd t)"
  shows "takeWhile P (ws @ t) = ws"
proof -
  have "takeWhile P t = []" using assms(2) by (cases t) auto
  then show ?thesis using assms(1) by (simp add: list_all_iff)
qed

lemma first_star:
  assumes "list_all P ws" and "t = [] \<or> \<not> P (hd t)"
  shows "first_result (star P) (ws @ t, caps) = Some (t, caps)"
  by (simp add: first_result_def star_def takeWhile_run[OF assms])

lemma first_many1:
  assumes "ws \<noteq> []" and "list_all P ws" and "t = [] \<or> \<not> P (hd t)"
  shows "first_result (many1 P) (ws @ t, caps) = Some (t, caps)"
proof -
  have "[1..<Suc (length ws)] = [1..<length ws] @ [length ws]"
    using assms(1) by (simp add: Suc_leI)
  then show ?thesis
    by (simp add: first_result_def many1_def takeWhile_run[OF assms(2,3)] del: upt_Suc)
qed

lemma first_cap:
  "first_result a st = Some r
   \<Longrightarrow> first_result (cap a) st
       = Some (fst r, snd r @ [take (length (fst st) - length (fst r)) (fst st)])"
  by (auto simp: first_result_def cap_def split: list.splits)

lemma first_opt_taken: "first_result a st = Some r \<Longrightarrow> first_result (opt a) st = Some r"
  by (auto simp: first_result_def opt_def split: list.splits)

lemma first_opt_skipped: "a st = [] \<Longrightarrow> first_result (opt a) st = Some st"
  by (simp add: first_result_def opt_def)

lemma first_declarator:
  assumes "keyword = ''let'' \<or> keyword = ''const'' \<or> keyword = ''var''"
  shows "first_result (opt (alt (lit ''let'') (alt (lit ''const'') (lit ''var'')))) (keyword @ t, caps)
         = Some (t, caps)"
  using assms by (auto simp: first_result_def opt_def alt_def lit_def)

lemma first_identifier:
  assumes "rest \<noteq> []" and "is_ident_start (hd rest)" and "list_all is_ident_char (tl rest)"
    and "t = [] \<or> \<not> is_ident_char (hd t)"
  shows "first_result (cap identifierPattern) (rest @ t, caps) = Some (t, caps @ [rest])"
proof -
  obtain c cs where rest: "rest = c # cs" using assms(1) by (cases rest) auto
  have 1: "first_result (chr_if is_ident_start) (rest @ t, caps) = Some (cs @ t, caps)"
    using assms(2) rest by (simp add: first_chr_if)
  have 2: "first_result (star is_ident_char) (cs @ t, caps) = Some (t, caps)"
    using assms(3,4) rest by (simp add: first_star)
  have "first_result identifierPattern (rest @ t, caps) = Some (t, caps)"
    unfolding identifierPattern_def by (rule first_seq[OF 1 2])
  from first_cap[OF this] show ?thesis by simp
qed

lemma first_integer:
  assumes "sign = [] \<or> sign = ''-''" and "ds \<noteq> []" and "list_all is_digit ds"
  shows "first_result (cap integerPattern) (sign @ ds, caps) = Some ([], caps @ [sign @ ds])"
proof -
  have many: "first_result (many1 is_digit) (ds @ [], caps) = Some ([], caps)"
    by (rule first_many1[OF assms(2,3)]) simp
  have "first_result (opt (lit ''-'')) (sign @ ds, caps) = Some (ds, caps)"
  proof (cases "sign = []")
    case True
    obtain d rest where ds: "ds = d # rest" using assms(2) by (cases ds) auto
    then have "is_digit d" using assms(3) by simp
    then have "d \<noteq> CHR ''-''" by (auto simp: is_digit_def)
    then have "lit ''-'' (ds, caps) = []" using ds by (simp add: lit_def)
    then show ?thesis using True by (simp add: first_opt_skipped)
  next
    case False
    then have "sign = ''-''" using assms(1) by simp
    then show ?thesis using first_lit[of "''-''" ds caps] by (simp add: first_opt_taken)
  qed
  then have "first_result integerPattern (sign @ ds, caps) = Some ([], caps)"
    unfolding integerPattern_def using many by (simp add: first_seq)
  from first_cap[OF this] show ?thesis by simp
qed

lemma space_facts:
  "\<not> is_space (CHR ''='')" "\<not> is_space (CHR ''-'')" "is_digit c \<Longrightarrow> \<not> is_space c"
  "\<not> is_ident_char (CHR ''='')" "is_space c \<Longrightarrow> \<not> is_ident_char c"
  "is_digit c \<Longrightarrow> c \<noteq> CHR '';''"
  by (auto simp: is_space_def is_digit_def is_ident_char_def is_word_def is_letter_def)

lemma startPattern_split:
  assumes kw: "keyword = ''let'' \<or> keyword = ''const'' \<or> keyword = ''var''"
    and rest: "rest \<noteq> []" "is_ident_start (hd rest)" "list_all is_ident_char (tl rest)"
    and ws: "list_all is_space ws1" "list_all is_space ws2"
    and num: "sign = [] \<or> sign = ''-''" "ds \<noteq> []" "list_all is_digit ds"
  shows "match_anchored startPattern (keyword @ rest @ ws1 @ ''='' @ ws2 @ sign @ ds)
         = Some [rest, sign @ ds]"
proof -
  let ?t5 = "sign @ ds"
  let ?t4 = "ws2 @ ?t5"
  let ?t3 = "''='' @ ?t4"
  let ?t2 = "ws1 @ ?t3"
  let ?t1 = "rest @ ?t2"
  have hd5: "\<not> is_space (hd ?t5)"
    using num by (cases ds) (auto simp: space_facts)
  have hd2: "\<not> is_ident_char (hd ?t2)"
    using ws(1) by (cases ws1) (auto simp: space_facts)
  have s0: "first_result (opt (alt (lit ''let'') (alt (lit ''const'') (lit ''var''))))
              (keyword @ ?t1, []) = Some (?t1, [])"
    by (rule first_declarator[OF kw])
  have s1: "first_result (star is_space) ([] @ ?t1, []) = Some (?t1, [])"
    using rest(1,2) by (intro first_star) (auto simp: is_ident_start_def is_letter_def is_space_def)
  have s2: "first_result (cap identifierPattern) (?t1, []) = Some (?t2, [] @ [rest])"
    using hd2 by (intro first_identifier rest) simp
  have s3: "first_result (star is_space) (?t2, [rest]) = Some (?t3, [rest])"
    by (intro first_star ws) (simp add: space_facts)
  have s4: "first_result (lit ''='') (?t3, [rest]) = Some (?t4, [rest])"
    by (rule first_lit)
  have s5: "first_result (star is_space) (?t4, [rest]) = Some (?t5, [rest])"
    using hd5 by (intro first_star ws) simp
  have s6: "first_result (cap integerPattern) (?t5, [rest]) = Some ([], [rest] @ [?t5])"
    by (rule first_integer[OF num])
  have s7: "first_result eoi ([], [rest, ?t5]) = Some ([], [rest, ?t5])"
    by (rule first_eoi)
  have "first_result startPattern (keyword @ ?t1, []) = Some ([], [rest, ?t5])"
    unfolding startPattern_def
    using s0 s1 s2 s3 s4 s5 s6 s7
    by (auto intro!: first_seqs_Cons first_seqs_Nil)
  then show ?thesis by (simp add: match_anchored_first)
qed

lemma dropWhile_hd: "xs \<noteq> [] \<Longrightarrow> \<not> P (hd xs) \<Longrightarrow> dropWhile P xs = xs"
  by (cases xs) auto

lemma trim_id:
  assumes "s \<noteq> []" and "\<not> is_space (hd s)" and "\<not> is_space (last s)"
  shows "trim s = s"
proof -
  have 1: "dropWhile is_space s = s" using assms(1,2) by (rule dropWhile_hd)
  have "rev s \<noteq> []" and "\<not> is_space (hd (rev s))" using assms(1,3) by (simp_all add: hd_rev)
  then have 2: "dropWhile is_space (rev s) = rev s" by (rule dropWhile_hd)
  show ?thesis by (simp add: trim_def 1 2)
qed

lemma parse_after_start:
  assumes "match_anchored startPattern (strip_semicolon (getSpanText (p Start))) = Some sm"
  shows "parseCounterConfig (Some p) = Inr parse
         \<Longrightarrow> c_variable (cp_config parse) = sm ! 0 \<and> c_start (cp_config parse) = Number_int (sm ! 1)"
    and "parseCounterConfig (Some p)
         \<noteq> Inl ''Could not read the starting value. Keep it like let i = 1.''"
proof -
  let ?v = "sm ! 0"
  let ?c = "match_anchored (conditionPattern ?v) (strip_semicolon (getSpanText (p Condition)))"
  let ?s = "match_anchored (stepPattern ?v) (strip_semicolon (getSpanText (p Step)))"
  let ?bad = "Inl ''Could not read the starting value. Keep it like let i = 1.''
                :: CounterParse ParseResult"
  show "parseCounterConfig (Some p) \<noteq> ?bad"
  proof (cases ?c)
    case None
    then show ?thesis using assms by (simp add: parseCounterConfig_def Let_def)
  next
    case c: (Some cm)
    show ?thesis
    proof (cases ?s)
      case None
      then show ?thesis using assms c by (simp add: parseCounterConfig_def Let_def)
    next
      case s: (Some stm)
      let ?step = "(if stm ! 0 = ''+'' then 1 else - 1) * Number_int (stm ! 1)"
      show ?thesis
      proof (cases "deriveCounterValues (Number_int (sm ! 1)) (Number_int (cm ! 1))
                      (toComparator (cm ! 0)) ?step")
        case (Inl e)
        then have "e = ''This loop would run too many times. Adjust the numbers.''"
          by (rule deriveCounterValues_error)
        then show ?thesis using assms c s Inl by (simp add: parseCounterConfig_def Let_def)
      next
        case (Inr v)
        then show ?thesis using assms c s by (simp add: parseCounterConfig_def Let_def)
      qed
    qed
  qed
  assume "parseCounterConfig (Some p) = Inr parse"
  then show "c_variable (cp_config parse) = sm ! 0 \<and> c_start (cp_config parse) = Number_int (sm ! 1)"
    using assms
    by (auto simp: parseCounterConfig_def Let_def split: option.splits if_splits sum.splits)
qed

text \<open>
  Claim C10 fails on \<open>var1 = 5\<close>: the identifier begins with the declarator keyword
  \<open>var\<close>, but what follows the keyword is no identifier, so the engine gives the keyword
  back and the whole word \<open>var1\<close> is the variable.
\<close>

theorem declarator_prefix_counterexample:
  "match_anchored startPattern (strip_semicolon (getSpanText (Some ''var1 = 5'')))
     = Some [''var1'', ''5'']
   \<and> map_sum id (\<lambda>parse. (c_variable (cp_config parse), c_start (cp_config parse)))
         (parseCounterConfig (Some (declaratorParts ''var1 = 5'' ''var1'')))
     = Inr (''var1'', 5)
   \<and> parseCounterConfig (Some (declaratorParts ''var1 = 5'' ''1''))
     = Inl ''Could not read the condition. Keep it like var1 <= 5.''"
  by code_simp

text \<open>
  Claim C10, amended. The declarator in front of the identifier need not be followed by
  white space, so a start fragment whose single word begins with a declarator keyword is
  split whenever the text after the keyword is itself an identifier: the keyword is taken
  as the declarator, the captured variable is the text after it, and the parse never fails
  at the start stage. For example \<open>constant = 5\<close> is read as variable \<open>ant\<close> with start
  value 5, and \<open>leti = 1\<close> as variable \<open>i\<close> with start value 1.
\<close>

theorem declarator_prefix_split:
  assumes "keyword = ''let'' \<or> keyword = ''const'' \<or> keyword = ''var''"
    and "rest \<noteq> []" and "is_ident_start (hd rest)" and "list_all is_ident_char (tl rest)"
    and "list_all is_space ws1" and "list_all is_space ws2"
    and "sign = [] \<or> sign = ''-''" and "ds \<noteq> []" and "list_all is_digit ds"
    and "p Start = Some (keyword @ rest @ ws1 @ ''='' @ ws2 @ sign @ ds)"
  shows "match_anchored startPattern (strip_semicolon (getSpanText (p Start)))
           = Some [rest, sign @ ds]
       \<and> parseCounterConfig (Some p)
           \<noteq> Inl ''Could not read the starting value. Keep it like let i = 1.''
       \<and> (\<forall>parse. parseCounterConfig (Some p) = Inr parse \<longrightarrow>
             c_variable (cp_config parse) = rest
             \<and> c_start (cp_config parse) = Number_int (sign @ ds))"
proof -
  let ?T = "keyword @ rest @ ws1 @ ''='' @ ws2 @ sign @ ds"
  have ne: "?T \<noteq> []" using assms(8) by simp
  have h: "\<not> is_space (hd ?T)" using assms(1) by (auto simp: is_space_def)
  have "last ?T = last ds" using assms(8) by simp
  moreover have "is_digit (last ds)" using assms(8,9) by (simp add: list_all_iff)
  ultimately have l: "\<not> is_space (last ?T)" "last ?T \<noteq> CHR '';''"
    by (simp_all add: space_facts)
  have "getSpanText (p Start) = ?T"
    unfolding assms(10) getSpanText_def using trim_id[OF ne h l(1)] by simp
  moreover have "strip_semicolon ?T = ?T" using l(2) by (simp add: strip_semicolon_def)
  ultimately have m: "match_anchored startPattern (strip_semicolon (getSpanText (p Start)))
      = Some [rest, sign @ ds]"
    using startPattern_split[OF assms(1-9)] by simp
  show ?thesis
    using m parse_after_start[where p = p and sm = "[rest, sign @ ds]", OF m] by simp
qed

theorem declarator_prefix_split_witness:
  "match_anchored startPattern (strip_semicolon (getSpanText (Some ''constant = 5'')))
     = Some [''ant'', ''5'']
   \<and> match_anchored startPattern (strip_semicolon (getSpanText (Some ''leti = 1'')))
     = Some [''i'', ''1'']
   \<and> map_sum id (\<lambda>parse. (c_variable (cp_config parse), c_start (cp_config parse)))
         (parseCounterConfig (Some (declaratorParts ''constant = 5'' ''ant'')))
     = Inr (''ant'', 5)
   \<and> map_sum id (\<lambda>parse. (c_variable (cp_config parse), c_start (cp_config parse)))
         (parseCounterConfig (Some (declaratorParts ''leti = 1'' ''i'')))
     = Inr (''i'', 1)"
proof -
  have a: "is_ident_start (hd ''ant'')" "list_all is_ident_char (tl ''ant'')"
    "is_ident_start (hd ''i'')" "list_all is_ident_char (tl ''i'')"
    "list_all is_space '' ''" "list_all is_digit ''5''" "list_all is_digit ''1''"
    by code_simp+
  have p: "declaratorParts ''constant = 5'' ''ant'' Start
             = Some (''const'' @ ''ant'' @ '' '' @ ''='' @ '' '' @ [] @ ''5'')"
    "declaratorParts ''leti = 1'' ''i'' Start
             = Some (''let'' @ ''i'' @ '' '' @ ''='' @ '' '' @ [] @ ''1'')"
    by (simp_all add: declaratorParts_def)
  have f: "map_sum id (\<lambda>parse. (c_variable (cp_config parse), c_start (cp_config parse)))
         (parseCounterConfig (Some (declaratorParts ''constant = 5'' ''ant''))) = Inr (''ant'', 5)"
    "map_sum id (\<lambda>parse. (c_variable (cp_config parse), c_start (cp_config parse)))
         (parseCounterConfig (Some (declaratorParts ''leti = 1'' ''i''))) = Inr (''i'', 1)"
    by code_simp+
  have s: "declaratorParts ''constant = 5'' ''ant'' Start = Some ''constant = 5''"
    "declaratorParts ''leti = 1'' ''i'' Start = Some ''leti = 1''"
    by (simp_all add: declaratorParts_def)
  show ?thesis
    using f
      declarator_prefix_split[where keyword = "''const''" and rest = "''ant''" and ?ws1.0 = "'' ''"
        and ?ws2.0 = "'' ''" and sign = "[]" and ds = "''5''"
        and p = "declaratorParts ''constant = 5'' ''ant''", OF _ _ a(1) a(2) a(5) a(5) _ _ a(6) p(1)]
      declarator_prefix_split[where keyword = "''let''" and rest = "''i''" and ?ws1.0 = "'' ''"
        and ?ws2.0 = "'' ''" and sign = "[]" and ds = "''1''"
        and p = "declaratorParts ''leti = 1'' ''i''", OF _ _ a(3) a(4) a(5) a(5) _ _ a(7) p(2)]
    unfolding s by simp
qed

subsection \<open>Statement templater\<close>

text \<open>
  Claim C5. The template \<open>console.log("Hello", i)\<close> with \<open>i\<close> replaced by \<open>3\<close> prints
  \<open>Hello 3\<close>, and the template \<open>console.log(i + 1)\<close> with \<open>i\<close> replaced by \<open>4\<close> prints
  \<open>5\<close>.
\<close>

theorem formatConsoleStatement_examples:
  \<open>formatConsoleStatement intNumbers ''console.log("Hello", i)'' [(''i'', ''3'')] = ''Hello 3''
   \<and> formatConsoleStatement intNumbers ''console.log(i + 1)'' [(''i'', ''4'')] = ''5''\<close>
  by code_simp

text \<open>
  Claim C6 fails on an empty argument list: \<open>console.log()\<close> has the shape of a call,
  its arguments split into no token at all, and the result is the empty text, not the
  substituted template.
\<close>

theorem empty_arguments_counterexample:
  "match_anchored consolePattern (trim ''console.log()'') = Some [[]]
   \<and> splitArguments [] = []
   \<and> formatConsoleStatement intNumbers ''console.log()'' [(''i'', ''3'')] = []
   \<and> replaceIdentifiers (trim ''console.log()'') [(''i'', ''3'')] = ''console.log()''
   \<and> formatConsoleStatement intNumbers ''console.log()'' [(''i'', ''3'')]
       \<noteq> replaceIdentifiers (trim ''console.log()'') [(''i'', ''3'')]"
  by code_simp

text \<open>
  Claim C6, amended. A template that trims to the empty text gives
  \<open>(no console output)\<close>. For a template of the shape \<open>console.log(...)\<close>: when the
  argument list splits into no argument the result is the empty text; when it splits into
  at least one argument and the evaluated non-empty tokens join to the empty text, the
  result is the identifier substitution of the whole trimmed template.
\<close>

theorem formatConsoleStatement_fallback:
  "(trim template = [] \<longrightarrow>
      formatConsoleStatement js template replacements = ''(no console output)'')
   \<and> (trim template \<noteq> [] \<and> match_anchored consolePattern (trim template) = Some m \<longrightarrow>
        (splitArguments (m ! 0) = [] \<longrightarrow>
           formatConsoleStatement js template replacements = [])
      \<and> (splitArguments (m ! 0) \<noteq> []
          \<and> join_space (filter (\<lambda>part. length part > 0)
               (map (\<lambda>arg. evaluateToken js arg replacements) (splitArguments (m ! 0)))) = []
          \<longrightarrow> formatConsoleStatement js template replacements
                = replaceIdentifiers (trim template) replacements))"
  by (simp add: formatConsoleStatement_def Let_def trim_def)

theorem formatConsoleStatement_fallback_witness:
  \<open>formatConsoleStatement intNumbers [CHR '' '', CHR 0x09] [(''i'', ''3'')] = ''(no console output)''
   \<and> formatConsoleStatement intNumbers ''console.log()'' [(''i'', ''3'')] = []
   \<and> formatConsoleStatement intNumbers ''console.log("", "")'' [(''i'', ''3'')]
       = ''console.log("", "")''\<close>
proof -
  have a: "trim [CHR '' '', CHR 0x09] = []" by code_simp
  have b: "trim ''console.log()'' \<noteq> []"
    "match_anchored consolePattern (trim ''console.log()'') = Some [[]]"
    "splitArguments ([[]] ! 0) = []" by code_simp+
  have c: \<open>trim ''console.log("", "")'' \<noteq> []\<close>
    \<open>match_anchored consolePattern (trim ''console.log("", "")'') = Some [''"", ""'']\<close>
    \<open>splitArguments ([''"", ""''] ! 0) \<noteq> []\<close>
    \<open>join_space (filter (\<lambda>part. length part > 0)
       (map (\<lambda>arg. evaluateToken intNumbers arg [(''i'', ''3'')]) (splitArguments ([''"", ""''] ! 0)))) = []\<close>
    \<open>replaceIdentifiers (trim ''console.log("", "")'') [(''i'', ''3'')] = ''console.log("", "")''\<close>
    by code_simp+
  show ?thesis
    using a b c
      formatConsoleStatement_fallback[where template = "[CHR '' '', CHR 0x09]"
        and js = intNumbers and replacements = "[(''i'', ''3'')]"]
      formatConsoleStatement_fallback[where template = "''console.log()''" and m = "[[]]"
        and js = intNumbers and replacements = "[(''i'', ''3'')]"]
      formatConsoleStatement_fallback[where template = \<open>''console.log("", "")''\<close>
        and m = \<open>[''"", ""'']\<close> and js = intNumbers and replacements = "[(''i'', ''3'')]"]
    by simp
qed

lemma splitScan_Suc: "splitScan value (Suc i) = splitStep value (splitScan value i) i"
  by (simp add: splitScan_def)

text \<open>
  Claim C7 fails on the text \<open>"a\",b"\<close>: the quote at index 3 follows a backslash and
  the quoted span is still open after it, so the comma behind it does not split and the
  whole text is one argument.
\<close>

theorem escaped_quote_counterexample:
  "escapedQuoteSample ! 2 = CHR 0x5C \<and> escapedQuoteSample ! 3 = CHR 0x22
   \<and> quote (splitScan escapedQuoteSample 3) = Some (CHR 0x22)
   \<and> quote (splitScan escapedQuoteSample 4) = Some (CHR 0x22)
   \<and> splitArguments escapedQuoteSample = [escapedQuoteSample]"
  by code_simp

text \<open>
  Claim C7, amended. In the scanner of the argument splitter a backslash does escape the
  matching quote: inside a quoted span, an occurrence of the opening quote character
  leaves the span open when the character before it is a backslash, and closes the span
  otherwise; in both cases the character is appended to the current argument.
\<close>

theorem escaped_quote_keeps_span_open:
  assumes "i < length value" and "quote (splitScan value i) = Some q" and "value ! i = q"
  shows "(0 < i \<and> value ! (i - 1) = CHR 0x5C \<longrightarrow> quote (splitScan value (Suc i)) = Some q)
       \<and> (\<not> (0 < i \<and> value ! (i - 1) = CHR 0x5C) \<longrightarrow> quote (splitScan value (Suc i)) = None)
       \<and> current (splitScan value (Suc i)) = current (splitScan value i) @ [q]
       \<and> args (splitScan value (Suc i)) = args (splitScan value i)
       \<and> depth (splitScan value (Suc i)) = depth (splitScan value i)"
  using assms(2,3) by (auto simp: splitScan_Suc splitStep_def previousChar_def Let_def)

theorem escaped_quote_keeps_span_open_witness:
  "quote (splitScan escapedQuoteSample 4) = Some (CHR 0x22)
   \<and> current (splitScan escapedQuoteSample 4) = [CHR 0x22, CHR ''a'', CHR 0x5C, CHR 0x22]
   \<and> quote (splitScan escapedQuoteSample 7) = None"
proof -
  have a: "3 < length escapedQuoteSample" "quote (splitScan escapedQuoteSample 3) = Some (CHR 0x22)"
    "escapedQuoteSample ! 3 = CHR 0x22" "escapedQuoteSample ! (3 - 1) = CHR 0x5C"
    "current (splitScan escapedQuoteSample 3) = [CHR 0x22, CHR ''a'', CHR 0x5C]"
    by code_simp+
  have b: "6 < length escapedQuoteSample" "quote (splitScan escapedQuoteSample 6) = Some (CHR 0x22)"
    "escapedQuoteSample ! 6 = CHR 0x22" "escapedQuoteSample ! (6 - 1) \<noteq> CHR 0x5C"
    by code_simp+
  have s: "Suc 3 = 4" "Suc 6 = 7" by simp_all
  show ?thesis
    using escaped_quote_keeps_span_open[OF a(1) a(2) a(3)]
      escaped_quote_keeps_span_open[OF b(1) b(2) b(3)] a(4) a(5) b(4)
    unfolding s by simp
qed

subsection \<open>Loop executors\<close>

text \<open>
  Claim C8. The defaults of the \<open>forEach\<close> lesson (the array \<open>[2, 4, 6]\<close> and the
  default body) parse, and the events built from them are the start event, three groups
  of a condition, a body and a step event whose condition and body counters are
  \<open>index = 0 (value 2)\<close>, \<open>index = 1 (value 4)\<close> and \<open>index = 2 (value 6)\<close>, the
  final condition event and the terminal event; the final counter is
  \<open>index = 3 (done)\<close>.
\<close>

theorem foreach_defaults:
  "(case parseForEachConfig intNumbers (defaultSpans Foreach) of
      Inl e \<Rightarrow> False
    | Inr parse \<Rightarrow>
        f_values (fp_config parse) = [Some 2, Some 4, Some 6]
        \<and> map (\<lambda>e. (highlight e, counter e)) (events (buildForEachLessonData intNumbers parse))
          = [(Some Start, Some ''index = -- (value --)''),
             (Some Condition, Some ''index = 0 (value 2)''),
             (Some Body, Some ''index = 0 (value 2)''),
             (Some Step, Some ''index = 1 (value 4)''),
             (Some Condition, Some ''index = 1 (value 4)''),
             (Some Body, Some ''index = 1 (value 4)''),
             (Some Step, Some ''index = 2 (value 6)''),
             (Some Condition, Some ''index = 2 (value 6)''),
             (Some Body, Some ''index = 2 (value 6)''),
             (Some Step, Some ''index = 3 (done)''),
             (Some Condition, Some ''index = 3 (done)''),
             (None, Some ''index = 3 (done)'')]
        \<and> finalCounter (buildForEachLessonData intNumbers parse) = ''index = 3 (done)'')"
  by code_simp

lemma forEachIteration_events:
  "l_events (forEachIteration js config texts acc v i)
   = l_events acc
     @ l_events (forEachIteration js config texts \<lparr>l_events = [], l_trace = [], l_console = []\<rparr> v i)"
  by (simp add: forEachIteration_def Let_def)

lemma forEachIteration_group:
  "length (l_events (forEachIteration js config texts
      \<lparr>l_events = [], l_trace = [], l_console = []\<rparr> v i)) = 3"
  "counter (l_events (forEachIteration js config texts
      \<lparr>l_events = [], l_trace = [], l_console = []\<rparr> v i) ! 2)
   = Some (formatForEachCounter js (Some (i + 1)) (element_at (f_values config) (i + 1))
             (Some (length (f_values config))))"
  "highlight (l_events (forEachIteration js config texts
      \<lparr>l_events = [], l_trace = [], l_console = []\<rparr> v i) ! 2) = Some Step"
  by (simp_all add: forEachIteration_def Let_def)

lemma forEach_fold_events:
  "l_events (foldl (\<lambda>a p. forEachIteration js config texts a (fst p) (snd p)) acc ps)
   = l_events acc
     @ concat (map (\<lambda>p. l_events (forEachIteration js config texts
                 \<lparr>l_events = [], l_trace = [], l_console = []\<rparr> (fst p) (snd p))) ps)"
proof (induction ps arbitrary: acc)
  case Nil
  show ?case by simp
next
  case (Cons p ps)
  show ?case
    by (simp add: Cons.IH forEachIteration_events[of js config texts acc])
qed

lemma concat_groups_nth:
  "(\<forall>x\<in>set xs. length (g x) = 3) \<Longrightarrow> i < length xs \<Longrightarrow> j < 3
   \<Longrightarrow> concat (map g xs) ! (3 * i + j) = g (xs ! i) ! j"
proof (induction xs arbitrary: i)
  case Nil
  then show ?case by simp
next
  case (Cons x xs)
  show ?case
  proof (cases i)
    case 0
    then show ?thesis using Cons.prems by (simp add: nth_append)
  next
    case (Suc k)
    have "concat (map g (x # xs)) ! (3 * i + j) = concat (map g xs) ! (3 * k + j)"
      using Cons.prems Suc by (simp add: nth_append)
    also have "\<dots> = g (xs ! k) ! j"
      using Cons.IH[of k] Cons.prems Suc by simp
    finally show ?thesis using Suc by simp
  qed
qed

text \<open>
  Claim C9 fails on the last item: for the values 2, 4, 6 the step event of the last item
  (the event at index 9) carries the counter \<open>index = 3 (done)\<close>, which does not
  contain \<open>(waiting)\<close>.
\<close>

theorem foreach_last_step_counterexample:
  "highlight (events (buildForEachLessonData intNumbers sampleForEachParse) ! 9) = Some Step
   \<and> counter (events (buildForEachLessonData intNumbers sampleForEachParse) ! 9)
       = Some ''index = 3 (done)''
   \<and> \<not> contains_text ''(waiting)'' ''index = 3 (done)''
   \<and> parseForEachConfig intNumbers (defaultSpans Foreach) = Inr sampleForEachParse"
  by code_simp

text \<open>
  Claim C9, amended. For every list of values and every item index \<open>i\<close>, the step event
  of item \<open>i\<close> (the event at index \<open>3 * i + 3\<close>) carries the counter
  \<open>index = i+1 (value v)\<close> when there is a value \<open>v\<close> at index \<open>i + 1\<close>, and the counter
  \<open>index = n (done)\<close>, with \<open>n\<close> the number of values, when item \<open>i\<close> is the last one.
\<close>

theorem foreach_step_counter:
  assumes "i < length (f_values (fp_config parse))"
  shows "highlight (events (buildForEachLessonData js parse) ! (3 * i + 3)) = Some Step
       \<and> counter (events (buildForEachLessonData js parse) ! (3 * i + 3))
         = Some (if i + 1 < length (f_values (fp_config parse))
                 then ''index = '' @ String_nat (i + 1) @ '' (value ''
                        @ js_String js (f_values (fp_config parse) ! (i + 1)) @ '')''
                 else ''index = '' @ String_nat (length (f_values (fp_config parse))) @ '' (done)'')"
proof -
  let ?vs = "f_values (fp_config parse)"
  let ?g = "\<lambda>p. l_events (forEachIteration js (fp_config parse) (fp_texts parse)
                 \<lparr>l_events = [], l_trace = [], l_console = []\<rparr> (fst p) (snd p))"
  let ?ps = "zip ?vs [0..<length ?vs]"
  have ev: "events (buildForEachLessonData js parse) ! (3 * i + 3) = concat (map ?g ?ps) ! (3 * i + 2)"
  proof -
    have len: "3 * i + 2 < length (concat (map ?g ?ps))"
    proof -
      have "length (concat (map ?g ?ps)) = 3 * length ?ps"
        by (induction ?ps) (simp_all add: forEachIteration_group(1) length_concat o_def sum_list_triv)
      then show ?thesis using assms by simp
    qed
    have "3 * i + 3 = Suc (3 * i + 2)" by simp
    then show ?thesis
      using len
      by (simp add: buildForEachLessonData_def Let_def forEach_indexed_def forEach_fold_events
            nth_append del: upt_Suc)
  qed
  have "concat (map ?g ?ps) ! (3 * i + 2) = ?g (?ps ! i) ! 2"
    using assms by (intro concat_groups_nth) (simp_all add: forEachIteration_group(1))
  moreover have "?ps ! i = (?vs ! i, i)" using assms by simp
  ultimately have step: "events (buildForEachLessonData js parse) ! (3 * i + 3)
      = l_events (forEachIteration js (fp_config parse) (fp_texts parse)
                 \<lparr>l_events = [], l_trace = [], l_console = []\<rparr> (?vs ! i) i) ! 2"
    using ev by simp
  show ?thesis
  proof (cases "i + 1 < length ?vs")
    case True
    then show ?thesis
      unfolding step forEachIteration_group
      by (simp add: formatForEachCounter_def element_at_def)
  next
    case False
    then have "Suc i = length ?vs" using assms by simp
    then show ?thesis
      unfolding step forEachIteration_group
      by (simp add: formatForEachCounter_def element_at_def)
  qed
qed

theorem foreach_step_counter_witness:
  "counter (events (buildForEachLessonData intNumbers sampleForEachParse) ! 6)
     = Some ''index = 2 (value 6)''
   \<and> counter (events (buildForEachLessonData intNumbers sampleForEachParse) ! 9)
     = Some ''index = 3 (done)''"
proof -
  have a: "1 < length (f_values (fp_config sampleForEachParse))"
    "2 < length (f_values (fp_config sampleForEachParse))" by code_simp+
  have n: "3 * 1 + 3 = (6::nat)" "3 * 2 + 3 = (9::nat)" by simp_all
  have v: "(if 1 + 1 < length (f_values (fp_config sampleForEachParse))
            then ''index = '' @ String_nat (1 + 1) @ '' (value ''
                   @ js_String intNumbers (f_values (fp_config sampleForEachParse) ! (1 + 1)) @ '')''
            else ''index = '' @ String_nat (length (f_values (fp_config sampleForEachParse)))
                   @ '' (done)'') = ''index = 2 (value 6)''"
    "(if 2 + 1 < length (f_values (fp_config sampleForEachParse))
            then ''index = '' @ String_nat (2 + 1) @ '' (value ''
                   @ js_String intNumbers (f_values (fp_config sampleForEachParse) ! (2 + 1)) @ '')''
            else ''index = '' @ String_nat (length (f_values (fp_config sampleForEachParse)))
                   @ '' (done)'') = ''index = 3 (done)''"
    by code_simp+
  show ?thesis
    using foreach_step_counter[OF a(1), of intNumbers] foreach_step_counter[OF a(2), of intNumbers]
    unfolding n v by simp
qed

end
